theory Spec2Isabelle
  imports Complex_Main "HOL-Library.Multiset" "HOL-Library.Product_Lexorder"
    "HOL-Library.List_Lexorder" "HOL-Library.Char_ord"
begin

section \<open>The scoring engine of \<open>adakgc/extraction/scorer.py\<close>\<close>

text \<open>
  The accumulators of the source keep three counters \<open>tp\<close>, \<open>gold_num\<close>, \<open>pred_num\<close>.
  The source stores them as Python floats that only ever receive \<open>+= 1\<close> and
  \<open>+= len(...)\<close>; they are modelled as natural numbers. The \<open>verbose\<close> flag only
  prints and is left out. An exception is a value of type \<open>error\<close>.

  The arithmetic of \<open>compute_f1\<close> is floating-point arithmetic. A float is modelled as
  the real number it denotes, and every division, multiplication and addition of the
  source as the exact operation followed by the rounding \<open>rnd\<close> of the platform, which
  the functions take as a parameter. \<open>binary64\<close> is the set of the finite
  double-precision numbers; a rounding leaves these as they are.
\<close>

subsection \<open>Data model\<close>

datatype match_mode = ModeSet | ModeNormal | ModeMultimatch

datatype error = AssertionError | NotImplementedError | IndexError | ZeroDivisionError

record metric =
  tp :: nat
  gold_num :: nat
  pred_num :: nat
  match_mode :: match_mode

definition Metric_init :: "match_mode \<Rightarrow> metric" where
  "Metric_init mode = \<lparr>tp = 0, gold_num = 0, pred_num = 0, match_mode = mode\<rparr>"

subsection \<open>\<open>Metric.safe_div\<close> and \<open>Metric.compute_f1\<close>\<close>

definition binary64 :: "real set" where
  "binary64 =
     {real_of_int m * 2 powi e | m e. \<bar>m\<bar> < 2 ^ 53 \<and> - 1074 \<le> e \<and> e \<le> 971}"

definition py_truediv :: "(real \<Rightarrow> real) \<Rightarrow> real \<Rightarrow> real \<Rightarrow> error + real" where
  \<comment> \<open>Python's \<open>a / b\<close> on floats: raises on a zero divisor.\<close>
  "py_truediv rnd a b = (if b = 0 then Inl ZeroDivisionError else Inr (rnd (a / b)))"

definition safe_div :: "(real \<Rightarrow> real) \<Rightarrow> real \<Rightarrow> real \<Rightarrow> error + real" where
  "safe_div rnd a b = (if b = 0 then Inr 0 else py_truediv rnd a b)"

text \<open>
  In \<open>compute_f1\<close> the argument \<open>2 * p * r\<close> is \<open>(2 * p) * r\<close>, two multiplications, and
  \<open>p + r\<close> is one addition; each is rounded before \<open>safe_div\<close> receives it.
\<close>

definition compute_f1 ::
  "(real \<Rightarrow> real) \<Rightarrow> metric \<Rightarrow> string \<Rightarrow> error + (string \<rightharpoonup> real)" where
  "compute_f1 rnd m prefix =
     (case safe_div rnd (real (tp m)) (real (pred_num m)) of
        Inl e \<Rightarrow> Inl e
      | Inr p \<Rightarrow>
     (case safe_div rnd (real (tp m)) (real (gold_num m)) of
        Inl e \<Rightarrow> Inl e
      | Inr r \<Rightarrow>
     (case safe_div rnd (rnd (rnd (2 * p) * r)) (rnd (p + r)) of
        Inl e \<Rightarrow> Inl e
      | Inr f \<Rightarrow>
          Inr (Map.empty
                (prefix @ ''tp'' \<mapsto> real (tp m),
                 prefix @ ''gold'' \<mapsto> real (gold_num m),
                 prefix @ ''pred'' \<mapsto> real (pred_num m),
                 prefix @ ''P'' \<mapsto> rnd (p * 100),
                 prefix @ ''R'' \<mapsto> rnd (r * 100),
                 prefix @ ''F1'' \<mapsto> rnd (f * 100))))))"

subsection \<open>\<open>Metric.count_instance\<close>\<close>

text \<open>
  An item is a Python tuple, modelled as the list of its fields, so that \<open>len\<close> is
  \<open>length\<close>. \<open>match_loop\<close> is the \<open>for pred in pred_list\<close> loop: its first argument is
  the working copy \<open>dup_gold_list\<close>, its last the running \<open>tp\<close>.
\<close>

fun match_loop :: "match_mode \<Rightarrow> 'a list \<Rightarrow> 'a list \<Rightarrow> nat \<Rightarrow> nat" where
  "match_loop mode dup_gold_list [] t = t"
| "match_loop mode dup_gold_list (pred # rest) t =
     (if pred \<in> set dup_gold_list
      then match_loop mode
             (if mode = ModeNormal then remove1 pred dup_gold_list else dup_gold_list)
             rest (t + 1)
      else match_loop mode dup_gold_list rest t)"

text \<open>
  The result of a call is the accumulator as the call leaves it, and the exception it
  raised, if any: the assertion of the source comes after both counts were
  incremented.
\<close>

definition count_instance ::
  "metric \<Rightarrow> 'a list list \<Rightarrow> 'a list list \<Rightarrow> metric \<times> error option" where
  "count_instance m gold_list pred_list =
     (if match_mode m = ModeSet then
        (m\<lparr>gold_num := gold_num m + card (set gold_list),
           pred_num := pred_num m + card (set pred_list),
           tp := tp m + card (set gold_list \<inter> set pred_list)\<rparr>, None)
      else
        let m1 = m\<lparr>gold_num := gold_num m + length gold_list,
                   pred_num := pred_num m + length pred_list\<rparr>
        in if length gold_list > 0 \<and> length pred_list > 0
              \<and> length (hd gold_list) \<noteq> length (hd pred_list)
           then (m1, Some AssertionError)
           else (m1\<lparr>tp := match_loop (match_mode m) gold_list pred_list (tp m1)\<rparr>, None))"


subsection \<open>\<open>RecordMetric\<close> and \<open>OrderedRecordMetric\<close>\<close>

text \<open>
  A record is the dictionary \<open>{'type': ..., 'spot': ..., 'asocs': [...]}\<close> of the
  source. \<open>sorted\<close> needs the pairs of \<open>asocs\<close> to be comparable, hence the linear
  order on their type.
\<close>

record ('s, 'r) srecord =
  type :: string
  spot :: 's
  asocs :: "'r list"

datatype metric_class = RecordMetric | OrderedRecordMetric

fun roles_loop :: "('r \<times> 'r) list \<Rightarrow> bool" where
  "roles_loop [] = True"
| "roles_loop ((gold_role, pred_role) # rest) =
     (if gold_role \<noteq> pred_role then False else roles_loop rest)"

definition RecordMetric_is_equal ::
  "('s, 'r::linorder) srecord \<Rightarrow> ('s, 'r) srecord \<Rightarrow> bool" where
  "RecordMetric_is_equal gold pred =
     (if type gold \<noteq> type pred then False
      else if spot gold \<noteq> spot pred then False
      else if length (asocs gold) \<noteq> length (asocs pred) then False
      else roles_loop (zip (sort (asocs gold)) (sort (asocs pred))))"

definition OrderedRecordMetric_is_equal ::
  "('s, 'r) srecord \<Rightarrow> ('s, 'r) srecord \<Rightarrow> bool" where
  "OrderedRecordMetric_is_equal gold pred =
     (if type gold \<noteq> type pred then False
      else if spot gold \<noteq> spot pred then False
      else if length (asocs gold) \<noteq> length (asocs pred) then False
      else roles_loop (zip (asocs gold) (asocs pred)))"

fun is_equal ::
  "metric_class \<Rightarrow> ('s, 'r::linorder) srecord \<Rightarrow> ('s, 'r) srecord \<Rightarrow> bool" where
  "is_equal RecordMetric = RecordMetric_is_equal"
| "is_equal OrderedRecordMetric = OrderedRecordMetric_is_equal"

text \<open>
  \<open>scan_gold\<close> is the inner loop \<open>for gold_index in gold_indexes\<close> for one prediction,
  with its \<open>break\<close>; \<open>record_loop\<close> is the outer loop \<open>for pred in pred_list\<close>. The
  state of both is the running \<open>tp\<close> and the flags \<open>non_found\<close>. \<open>count_instance\<close>
  runs them on \<open>range(len(gold_list))\<close> with as many flags, so every index is in range.
\<close>

fun scan_gold ::
  "match_mode \<Rightarrow> ('g \<Rightarrow> 'p \<Rightarrow> bool) \<Rightarrow> 'g list \<Rightarrow> 'p \<Rightarrow> nat list
     \<Rightarrow> nat \<times> bool list \<Rightarrow> nat \<times> bool list" where
  "scan_gold mode eq gold_list pred [] (t, non_found) = (t, non_found)"
| "scan_gold mode eq gold_list pred (gold_index # rest) (t, non_found) =
     (if non_found ! gold_index \<and> eq (gold_list ! gold_index) pred
      then (if mode = ModeNormal
            then (t + 1, non_found[gold_index := False])
            else scan_gold mode eq gold_list pred rest
                   (t + 1, non_found[gold_index := False]))
      else scan_gold mode eq gold_list pred rest (t, non_found))"

fun record_loop ::
  "match_mode \<Rightarrow> ('g \<Rightarrow> 'p \<Rightarrow> bool) \<Rightarrow> 'g list \<Rightarrow> nat list \<Rightarrow> 'p list
     \<Rightarrow> nat \<times> bool list \<Rightarrow> nat \<times> bool list" where
  "record_loop mode eq gold_list gold_indexes [] s = s"
| "record_loop mode eq gold_list gold_indexes (pred # rest) s =
     record_loop mode eq gold_list gold_indexes rest
       (scan_gold mode eq gold_list pred gold_indexes s)"

definition RecordMetric_count_instance ::
  "metric_class \<Rightarrow> metric \<Rightarrow> ('s, 'r::linorder) srecord list \<Rightarrow> ('s, 'r) srecord list
     \<Rightarrow> metric \<times> error option" where
  "RecordMetric_count_instance cls m gold_list pred_list =
     (if match_mode m = ModeSet then (m, Some NotImplementedError)
      else
        let m1 = m\<lparr>gold_num := gold_num m + length gold_list,
                   pred_num := pred_num m + length pred_list\<rparr>;
            gold_indexes = [0..<length gold_list];
            non_found = replicate (length gold_list) True
        in (m1\<lparr>tp := fst (record_loop (match_mode m) (is_equal cls) gold_list
                            gold_indexes pred_list (tp m1, non_found))\<rparr>, None))"

subsection \<open>Instances and the three scorers\<close>

text \<open>
  A field of a canonical tuple is a string or an offset tuple. An instance is the
  dictionary from an axis name to the list of tuples of one example; \<open>get_default\<close> is
  \<open>instance.get(key, [])\<close>. Inside a scorer an exception of an accumulator aborts the
  whole evaluation: \<open>call_count\<close> keeps the accumulator of a call that returned.
\<close>

datatype field = Str string | Offset "int list"

type_synonym item = "field list"

type_synonym inst = "string \<rightharpoonup> item list"

definition tuple_offset :: "int list \<Rightarrow> int list" where
  "tuple_offset offset = offset"

definition get_default :: "inst \<Rightarrow> string \<Rightarrow> item list" where
  "get_default d key = (case d key of None \<Rightarrow> [] | Some v \<Rightarrow> v)"

definition call_count :: "metric \<Rightarrow> 'a list list \<Rightarrow> 'a list list \<Rightarrow> error + metric" where
  "call_count m gold_list pred_list =
     (case count_instance m gold_list pred_list of
        (m', None) \<Rightarrow> Inr m'
      | (m', Some e) \<Rightarrow> Inl e)"

text \<open>\<open>EntityScorer.eval_instance_list\<close>: the dictionary \<open>metrics\<close> is iterated in the
  order \<open>'string'\<close>, \<open>'offset'\<close>.\<close>

fun entity_loop ::
  "(inst \<times> inst) list \<Rightarrow> metric \<times> metric \<Rightarrow> error + metric \<times> metric" where
  "entity_loop [] ms = Inr ms"
| "entity_loop ((pred, gold) # rest) (string_m, offset_m) =
     (case call_count string_m (get_default gold ''string'') (get_default pred ''string'') of
        Inl e \<Rightarrow> Inl e
      | Inr string_m' \<Rightarrow>
     (case call_count offset_m (get_default gold ''offset'') (get_default pred ''offset'') of
        Inl e \<Rightarrow> Inl e
      | Inr offset_m' \<Rightarrow> entity_loop rest (string_m', offset_m')))"

definition EntityScorer_eval_instance_list ::
  "(real \<Rightarrow> real) \<Rightarrow> match_mode \<Rightarrow> inst list \<Rightarrow> inst list
     \<Rightarrow> error + (string \<rightharpoonup> real)" where
  "EntityScorer_eval_instance_list rnd mode gold_instance_list pred_instance_list =
     (case entity_loop (zip pred_instance_list gold_instance_list)
             (Metric_init mode, Metric_init mode) of
        Inl e \<Rightarrow> Inl e
      | Inr (string_m, offset_m) \<Rightarrow>
     (case compute_f1 rnd string_m ''string-ent-'' of
        Inl e \<Rightarrow> Inl e
      | Inr r1 \<Rightarrow>
     (case compute_f1 rnd offset_m ''offset-ent-'' of
        Inl e \<Rightarrow> Inl e
      | Inr r2 \<Rightarrow> Inr (r1 ++ r2))))"

text \<open>\<open>RelationScorer.load_gold_list\<close>. A gold relation is
  \<open>{'type': ..., 'args': [{'type': ..., 'offset': ..., 'text': ...}, ...]}\<close>; the
  instance is a \<open>defaultdict(list)\<close>.\<close>

record arg =
  arg_type :: string
  arg_offset :: "int list"
  arg_text :: string

record relation_record =
  rel_type :: string
  args :: "arg list"

fun load_gold_records :: "relation_record list \<Rightarrow> inst \<Rightarrow> error + inst" where
  "load_gold_records [] gold_instance = Inr gold_instance"
| "load_gold_records (r # rest) gold_instance =
     (if length (args r) \<noteq> 2 then Inl AssertionError
      else
        let a0 = args r ! 0; a1 = args r ! 1;
            g1 = gold_instance(''offset'' \<mapsto> get_default gold_instance ''offset'' @
                   [[Str (rel_type r),
                     Str (arg_type a0), Offset (tuple_offset (arg_offset a0)),
                     Str (arg_type a1), Offset (tuple_offset (arg_offset a1))]]);
            g2 = g1(''string'' \<mapsto> get_default g1 ''string'' @
                   [[Str (rel_type r),
                     Str (arg_type a0), Str (arg_text a0),
                     Str (arg_type a1), Str (arg_text a1)]])
        in load_gold_records rest g2)"

fun load_gold_loop :: "relation_record list list \<Rightarrow> inst list \<Rightarrow> error + inst list" where
  "load_gold_loop [] gold_instance_list = Inr gold_instance_list"
| "load_gold_loop (gold # rest) gold_instance_list =
     (case load_gold_records gold Map.empty of
        Inl e \<Rightarrow> Inl e
      | Inr gold_instance \<Rightarrow> load_gold_loop rest (gold_instance_list @ [gold_instance]))"

definition RelationScorer_load_gold_list ::
  "relation_record list list \<Rightarrow> error + inst list" where
  "RelationScorer_load_gold_list gold_list = load_gold_loop gold_list []"

text \<open>\<open>RelationScorer.eval_instance_list\<close>. \<open>boundary_item\<close> is \<open>(x[0], x[2], x[4])\<close>,
  which raises on a tuple of fewer than five fields; \<open>boundary_view\<close> is the list
  comprehension over it. Both dictionaries are iterated in the order \<open>'offset'\<close>,
  \<open>'string'\<close>.\<close>

definition boundary_item :: "'a list \<Rightarrow> error + 'a list" where
  "boundary_item x = (if length x < 5 then Inl IndexError else Inr [x ! 0, x ! 2, x ! 4])"

fun boundary_view :: "'a list list \<Rightarrow> error + 'a list list" where
  "boundary_view [] = Inr []"
| "boundary_view (x # xs) =
     (case boundary_item x of
        Inl e \<Rightarrow> Inl e
      | Inr b \<Rightarrow> (case boundary_view xs of Inl e \<Rightarrow> Inl e | Inr bs \<Rightarrow> Inr (b # bs)))"

definition boundary_count :: "metric \<Rightarrow> 'a list list \<Rightarrow> 'a list list \<Rightarrow> error + metric" where
  "boundary_count m gold_list pred_list =
     (case boundary_view gold_list of
        Inl e \<Rightarrow> Inl e
      | Inr bg \<Rightarrow>
     (case boundary_view pred_list of
        Inl e \<Rightarrow> Inl e
      | Inr bp \<Rightarrow> call_count m bg bp))"

record rel_metrics =
  strict_offset :: metric
  strict_string :: metric
  boundary_offset :: metric
  boundary_string :: metric

definition relation_step :: "rel_metrics \<Rightarrow> inst \<times> inst \<Rightarrow> error + rel_metrics" where
  "relation_step ms pg =
     (case pg of (pred, gold) \<Rightarrow>
     (case call_count (strict_offset ms)
             (get_default gold ''offset'') (get_default pred ''offset'') of
        Inl e \<Rightarrow> Inl e
      | Inr so \<Rightarrow>
     (case call_count (strict_string ms)
             (get_default gold ''string'') (get_default pred ''string'') of
        Inl e \<Rightarrow> Inl e
      | Inr ss \<Rightarrow>
     (case boundary_count (boundary_offset ms)
             (get_default gold ''offset'') (get_default pred ''offset'') of
        Inl e \<Rightarrow> Inl e
      | Inr bo \<Rightarrow>
     (case boundary_count (boundary_string ms)
             (get_default gold ''string'') (get_default pred ''string'') of
        Inl e \<Rightarrow> Inl e
      | Inr bs \<Rightarrow>
          Inr \<lparr>strict_offset = so, strict_string = ss,
               boundary_offset = bo, boundary_string = bs\<rparr>)))))"

fun relation_loop :: "(inst \<times> inst) list \<Rightarrow> rel_metrics \<Rightarrow> error + rel_metrics" where
  "relation_loop [] ms = Inr ms"
| "relation_loop (pg # rest) ms =
     (case relation_step ms pg of
        Inl e \<Rightarrow> Inl e
      | Inr ms' \<Rightarrow> relation_loop rest ms')"

definition RelationScorer_metrics ::
  "match_mode \<Rightarrow> inst list \<Rightarrow> inst list \<Rightarrow> error + rel_metrics" where
  "RelationScorer_metrics mode gold_instance_list pred_instance_list =
     relation_loop (zip pred_instance_list gold_instance_list)
       \<lparr>strict_offset = Metric_init mode, strict_string = Metric_init mode,
        boundary_offset = Metric_init mode, boundary_string = Metric_init mode\<rparr>"

definition RelationScorer_eval_instance_list ::
  "(real \<Rightarrow> real) \<Rightarrow> match_mode \<Rightarrow> inst list \<Rightarrow> inst list
     \<Rightarrow> error + (string \<rightharpoonup> real)" where
  "RelationScorer_eval_instance_list rnd mode gold_instance_list pred_instance_list =
     (case RelationScorer_metrics mode gold_instance_list pred_instance_list of
        Inl e \<Rightarrow> Inl e
      | Inr ms \<Rightarrow>
     (case compute_f1 rnd (strict_offset ms) ''offset-rel-strict-'' of
        Inl e \<Rightarrow> Inl e
      | Inr r1 \<Rightarrow>
     (case compute_f1 rnd (strict_string ms) ''string-rel-strict-'' of
        Inl e \<Rightarrow> Inl e
      | Inr r2 \<Rightarrow>
     (case compute_f1 rnd (boundary_offset ms) ''offset-rel-boundary-'' of
        Inl e \<Rightarrow> Inl e
      | Inr r3 \<Rightarrow>
     (case compute_f1 rnd (boundary_string ms) ''string-rel-boundary-'' of
        Inl e \<Rightarrow> Inl e
      | Inr r4 \<Rightarrow> Inr (r1 ++ r2 ++ r3 ++ r4))))))"

text \<open>\<open>EventScorer.eval_instance_list\<close>: per example the two trigger accumulators,
  then the two role accumulators, each pair in the order \<open>'offset'\<close>, \<open>'string'\<close>.\<close>

record evt_metrics =
  trigger_offset :: metric
  trigger_string :: metric
  role_offset :: metric
  role_string :: metric

definition event_step :: "evt_metrics \<Rightarrow> inst \<times> inst \<Rightarrow> error + evt_metrics" where
  "event_step ms pg =
     (case pg of (pred, gold) \<Rightarrow>
     (case call_count (trigger_offset ms)
             (get_default gold ''offset_trigger'') (get_default pred ''offset_trigger'') of
        Inl e \<Rightarrow> Inl e
      | Inr t_o \<Rightarrow>
     (case call_count (trigger_string ms)
             (get_default gold ''string_trigger'') (get_default pred ''string_trigger'') of
        Inl e \<Rightarrow> Inl e
      | Inr t_s \<Rightarrow>
     (case call_count (role_offset ms)
             (get_default gold ''offset_role'') (get_default pred ''offset_role'') of
        Inl e \<Rightarrow> Inl e
      | Inr r_o \<Rightarrow>
     (case call_count (role_string ms)
             (get_default gold ''string_role'') (get_default pred ''string_role'') of
        Inl e \<Rightarrow> Inl e
      | Inr r_s \<Rightarrow>
          Inr \<lparr>trigger_offset = t_o, trigger_string = t_s,
               role_offset = r_o, role_string = r_s\<rparr>)))))"

fun event_loop :: "(inst \<times> inst) list \<Rightarrow> evt_metrics \<Rightarrow> error + evt_metrics" where
  "event_loop [] ms = Inr ms"
| "event_loop (pg # rest) ms =
     (case event_step ms pg of
        Inl e \<Rightarrow> Inl e
      | Inr ms' \<Rightarrow> event_loop rest ms')"

definition EventScorer_eval_instance_list ::
  "(real \<Rightarrow> real) \<Rightarrow> match_mode \<Rightarrow> inst list \<Rightarrow> inst list
     \<Rightarrow> error + (string \<rightharpoonup> real)" where
  "EventScorer_eval_instance_list rnd mode gold_instance_list pred_instance_list =
     (case event_loop (zip pred_instance_list gold_instance_list)
             \<lparr>trigger_offset = Metric_init mode, trigger_string = Metric_init mode,
              role_offset = Metric_init mode, role_string = Metric_init mode\<rparr> of
        Inl e \<Rightarrow> Inl e
      | Inr ms \<Rightarrow>
     (case compute_f1 rnd (trigger_offset ms) ''offset-evt-trigger-'' of
        Inl e \<Rightarrow> Inl e
      | Inr r1 \<Rightarrow>
     (case compute_f1 rnd (trigger_string ms) ''string-evt-trigger-'' of
        Inl e \<Rightarrow> Inl e
      | Inr r2 \<Rightarrow>
     (case compute_f1 rnd (role_offset ms) ''offset-evt-role-'' of
        Inl e \<Rightarrow> Inl e
      | Inr r3 \<Rightarrow>
     (case compute_f1 rnd (role_string ms) ''string-evt-role-'' of
        Inl e \<Rightarrow> Inl e
      | Inr r4 \<Rightarrow> Inr (r1 ++ r2 ++ r3 ++ r4))))))"

subsection \<open>Sequences of calls\<close>

text \<open>
  The accumulator after a sequence of \<open>count_instance\<close> calls, each with its own gold
  and predicted list. A call that raises leaves the accumulator as the exception found
  it, and the next call of a caller that caught the exception starts from there.
\<close>

fun run_metric :: "metric \<Rightarrow> ('a list list \<times> 'a list list) list \<Rightarrow> metric" where
  "run_metric m [] = m"
| "run_metric m ((gold_list, pred_list) # calls) =
     run_metric (fst (count_instance m gold_list pred_list)) calls"

fun run_record ::
  "metric_class \<Rightarrow> metric
     \<Rightarrow> (('s, 'r::linorder) srecord list \<times> ('s, 'r) srecord list) list \<Rightarrow> metric" where
  "run_record cls m [] = m"
| "run_record cls m ((gold_list, pred_list) # calls) =
     run_record cls (fst (RecordMetric_count_instance cls m gold_list pred_list)) calls"

subsection \<open>The accumulators of one relation evaluation, and example instances\<close>

text \<open>
  \<open>eval_instance_list\<close> creates its four accumulators with the one \<open>match_mode\<close> it
  was given; \<open>same_mode\<close> says so of a state of the loop.
\<close>

definition same_mode :: "match_mode \<Rightarrow> rel_metrics \<Rightarrow> bool" where
  "same_mode mode ms \<longleftrightarrow>
     match_mode (strict_offset ms) = mode \<and> match_mode (strict_string ms) = mode
     \<and> match_mode (boundary_offset ms) = mode \<and> match_mode (boundary_string ms) = mode"

text \<open>
  \<open>swapped_gold\<close> and \<open>swapped_pred\<close> are one gold relation and the prediction with the
  two argument types exchanged; \<open>same_spans\<close> holds two relations of the same type over
  the same two spans that differ in the type of the first argument.
\<close>

definition swapped_gold :: inst where
  "swapped_gold = [''offset'' \<mapsto> [[Str ''REL'', Str ''PER'', Offset [0, 1], Str ''ORG'', Offset [2, 3]]],
              ''string'' \<mapsto> [[Str ''REL'', Str ''PER'', Str ''Bob'', Str ''ORG'', Str ''Acme'']]]"

definition swapped_pred :: inst where
  "swapped_pred = [''offset'' \<mapsto> [[Str ''REL'', Str ''ORG'', Offset [0, 1], Str ''PER'', Offset [2, 3]]],
              ''string'' \<mapsto> [[Str ''REL'', Str ''ORG'', Str ''Bob'', Str ''PER'', Str ''Acme'']]]"

definition same_spans :: inst where
  "same_spans = [''offset'' \<mapsto> [[Str ''REL'', Str ''PER'', Offset [0, 1], Str ''ORG'', Offset [2, 3]],
                              [Str ''REL'', Str ''LOC'', Offset [0, 1], Str ''ORG'', Offset [2, 3]]],
             ''string'' \<mapsto> [[Str ''REL'', Str ''PER'', Str ''Bob'', Str ''ORG'', Str ''Acme''],
                              [Str ''REL'', Str ''LOC'', Str ''Bob'', Str ''ORG'', Str ''Acme'']]]"

text \<open>
  Two event records that differ only in the order of their two arguments.
\<close>

definition attack_ab :: "(string, string \<times> string) srecord" where
  "attack_ab = \<lparr>type = ''Attack'', spot = ''fired'',
                 asocs = [(''Target'', ''base''), (''Attacker'', ''army'')]\<rparr>"

definition attack_ba :: "(string, string \<times> string) srecord" where
  "attack_ba = \<lparr>type = ''Attack'', spot = ''fired'',
                 asocs = [(''Attacker'', ''army''), (''Target'', ''base'')]\<rparr>"

subsection \<open>The list objects of a call, as a store\<close>

text \<open>
  To say what a call does to the lists it is given, the lists are objects of a store:
  a reference is an index into the store, and a new object is allocated at its end. An
  object is a list of items (tuples or records) or a list of flags.
\<close>

datatype 'a obj = Items "'a list" | Flags "bool list"

type_synonym 'a heap = "'a obj list"

fun items_of :: "'a obj \<Rightarrow> 'a list" where
  "items_of (Items xs) = xs"
| "items_of (Flags bs) = []"

fun flags_of :: "'a obj \<Rightarrow> bool list" where
  "flags_of (Flags bs) = bs"
| "flags_of (Items xs) = []"

definition alloc :: "'a heap \<Rightarrow> 'a obj \<Rightarrow> 'a heap \<times> nat" where
  "alloc h v = (h @ [v], length h)"

text \<open>
  \<open>match_loop_heap\<close> is the loop \<open>for pred in pred_list\<close> of \<open>Metric.count_instance\<close> on
  the store: the iterator reads the list object \<open>pred_ref\<close> at position \<open>i\<close> as long as
  \<open>i\<close> is below its current length, and \<open>dup_gold_list.remove(pred)\<close> writes to the
  object \<open>dup_ref\<close>.
\<close>

function match_loop_heap ::
  "match_mode \<Rightarrow> nat \<Rightarrow> nat \<Rightarrow> nat \<Rightarrow> nat \<Rightarrow> 'a heap \<Rightarrow> nat \<times> 'a heap" where
  "match_loop_heap mode dup_ref pred_ref i t h =
     (if i < length (items_of (h ! pred_ref))
      then (if items_of (h ! pred_ref) ! i \<in> set (items_of (h ! dup_ref))
            then match_loop_heap mode dup_ref pred_ref (i + 1) (t + 1)
                   (if mode = ModeNormal
                    then h[dup_ref := Items (remove1 (items_of (h ! pred_ref) ! i)
                                               (items_of (h ! dup_ref)))]
                    else h)
            else match_loop_heap mode dup_ref pred_ref (i + 1) t h)
      else (t, h))"
  by pat_completeness auto
termination
proof (relation "measure (\<lambda>(mode, dup_ref, pred_ref, i, t, h). length (items_of (h ! pred_ref)) - i)")
  show "wf (measure (\<lambda>(mode, dup_ref, pred_ref, i, t, h :: 'a heap).
              length (items_of (h ! pred_ref)) - i))"
    by simp
next
  fix mode :: match_mode and dup_ref pred_ref i t :: nat and h :: "'a heap"
  assume i: "i < length (items_of (h ! pred_ref))"
    and p: "items_of (h ! pred_ref) ! i \<in> set (items_of (h ! dup_ref))"
  let ?h' = "h[dup_ref := Items (remove1 (items_of (h ! pred_ref) ! i) (items_of (h ! dup_ref)))]"
  have "length (items_of (?h' ! pred_ref)) - Suc i < length (items_of (h ! pred_ref)) - i"
  proof (cases "pred_ref = dup_ref \<and> dup_ref < length h")
    case True
    then have "items_of (?h' ! pred_ref)
                 = remove1 (items_of (h ! pred_ref) ! i) (items_of (h ! pred_ref))"
      by simp
    moreover have "length (remove1 (items_of (h ! pred_ref) ! i) (items_of (h ! pred_ref)))
                     \<le> length (items_of (h ! pred_ref))"
      by (simp add: length_remove1)
    ultimately show ?thesis using i by simp
  next
    case False
    then have "?h' ! pred_ref = h ! pred_ref"
      by (cases "pred_ref = dup_ref") (simp_all add: list_update_beyond)
    then show ?thesis using i by simp
  qed
  moreover have "length (items_of (h ! pred_ref)) - Suc i < length (items_of (h ! pred_ref)) - i"
    using i by arith
  ultimately show "((mode, dup_ref, pred_ref, i + 1, t + 1,
                if mode = ModeNormal then ?h' else h),
               (mode, dup_ref, pred_ref, i, t, h))
             \<in> measure (\<lambda>(mode, dup_ref, pred_ref, i, t, h).
                   length (items_of (h ! pred_ref)) - i)"
    by simp
next
  fix mode :: match_mode and dup_ref pred_ref i t :: nat and h :: "'a heap"
  assume "i < length (items_of (h ! pred_ref))"
  then have "length (items_of (h ! pred_ref)) - Suc i < length (items_of (h ! pred_ref)) - i"
    by arith
  then show "((mode, dup_ref, pred_ref, i + 1, t, h), (mode, dup_ref, pred_ref, i, t, h))
             \<in> measure (\<lambda>(mode, dup_ref, pred_ref, i, t, h).
                   length (items_of (h ! pred_ref)) - i)"
    by simp
qed

text \<open>
  \<open>set(gold_list)\<close> and \<open>set(pred_list)\<close> build new sets and rebind the two local names;
  \<open>deepcopy(gold_list)\<close> allocates the working copy (the tuples in it are immutable).
\<close>

definition count_instance_heap ::
  "metric \<Rightarrow> nat \<Rightarrow> nat \<Rightarrow> 'a list heap \<Rightarrow> (metric \<times> error option) \<times> 'a list heap" where
  "count_instance_heap m gold_ref pred_ref h =
     (if match_mode m = ModeSet then
        ((m\<lparr>gold_num := gold_num m + card (set (items_of (h ! gold_ref))),
            pred_num := pred_num m + card (set (items_of (h ! pred_ref))),
            tp := tp m + card (set (items_of (h ! gold_ref))
                                 \<inter> set (items_of (h ! pred_ref)))\<rparr>, None), h)
      else
        let m1 = m\<lparr>gold_num := gold_num m + length (items_of (h ! gold_ref)),
                   pred_num := pred_num m + length (items_of (h ! pred_ref))\<rparr>
        in if length (items_of (h ! gold_ref)) > 0 \<and> length (items_of (h ! pred_ref)) > 0
              \<and> length (hd (items_of (h ! gold_ref))) \<noteq> length (hd (items_of (h ! pred_ref)))
           then ((m1, Some AssertionError), h)
           else
             (case alloc h (Items (items_of (h ! gold_ref))) of
                (h1, dup_ref) \<Rightarrow>
             (case match_loop_heap (match_mode m) dup_ref pred_ref 0 (tp m1) h1 of
                (t, h2) \<Rightarrow> ((m1\<lparr>tp := t\<rparr>, None), h2))))"

text \<open>
  The loops of \<open>RecordMetric.count_instance\<close> on the store. \<open>non_found\<close> is a list
  object that \<open>non_found[gold_index] = False\<close> writes to; \<open>gold_indexes\<close> is a local list
  that no statement writes to and stays a value.
\<close>

fun scan_gold_heap ::
  "match_mode \<Rightarrow> ('g \<Rightarrow> 'g \<Rightarrow> bool) \<Rightarrow> nat \<Rightarrow> 'g \<Rightarrow> nat list \<Rightarrow> nat \<Rightarrow> nat \<Rightarrow> 'g heap
     \<Rightarrow> nat \<times> 'g heap" where
  "scan_gold_heap mode eq gold_ref pred [] nf_ref t h = (t, h)"
| "scan_gold_heap mode eq gold_ref pred (gold_index # rest) nf_ref t h =
     (if flags_of (h ! nf_ref) ! gold_index \<and> eq (items_of (h ! gold_ref) ! gold_index) pred
      then (if mode = ModeNormal
            then (t + 1, h[nf_ref := Flags ((flags_of (h ! nf_ref))[gold_index := False])])
            else scan_gold_heap mode eq gold_ref pred rest nf_ref (t + 1)
                   (h[nf_ref := Flags ((flags_of (h ! nf_ref))[gold_index := False])]))
      else scan_gold_heap mode eq gold_ref pred rest nf_ref t h)"

function record_loop_heap ::
  "match_mode \<Rightarrow> ('g \<Rightarrow> 'g \<Rightarrow> bool) \<Rightarrow> nat \<Rightarrow> nat \<Rightarrow> nat list \<Rightarrow> nat \<Rightarrow> nat \<Rightarrow> nat
     \<Rightarrow> 'g heap \<Rightarrow> nat \<times> 'g heap" where
  "record_loop_heap mode eq gold_ref pred_ref gold_indexes nf_ref i t h =
     (if i < length (items_of (h ! pred_ref))
      then record_loop_heap mode eq gold_ref pred_ref gold_indexes nf_ref (i + 1)
             (fst (scan_gold_heap mode eq gold_ref (items_of (h ! pred_ref) ! i)
                     gold_indexes nf_ref t h))
             (snd (scan_gold_heap mode eq gold_ref (items_of (h ! pred_ref) ! i)
                     gold_indexes nf_ref t h))
      else (t, h))"
  by pat_completeness auto
termination
proof (relation "measure (\<lambda>(mode, eq, gold_ref, pred_ref, gold_indexes, nf_ref, i, t, h).
                   length (items_of (h ! pred_ref)) - i)")
  show "wf (measure (\<lambda>(mode, eq :: 'g \<Rightarrow> 'g \<Rightarrow> bool, gold_ref, pred_ref, gold_indexes,
                       nf_ref, i, t, h :: 'g heap). length (items_of (h ! pred_ref)) - i))"
    by simp
next
  fix mode :: match_mode and eq :: "'g \<Rightarrow> 'g \<Rightarrow> bool" and gold_ref pred_ref nf_ref i t :: nat
    and gold_indexes :: "nat list" and h :: "'g heap"
  assume i: "i < length (items_of (h ! pred_ref))"
  have w: "length (items_of (h[nf_ref := Flags bs] ! r)) \<le> length (items_of (h ! r))"
    for bs r and h :: "'g heap"
  proof (cases "r = nf_ref")
    case True
    then show ?thesis by (cases "nf_ref < length h") (simp_all add: list_update_beyond)
  next
    case False
    then show ?thesis by simp
  qed
  have s: "length (items_of (snd (scan_gold_heap mode eq gold_ref p gold_indexes nf_ref t h) ! r))
             \<le> length (items_of (h ! r))" for p r t and h :: "'g heap"
  proof (induction gold_indexes arbitrary: t h)
    case Nil
    show ?case by simp
  next
    case (Cons gi rest)
    let ?h' = "h[nf_ref := Flags ((flags_of (h ! nf_ref))[gi := False])]"
    have "length (items_of (snd (scan_gold_heap mode eq gold_ref p rest nf_ref (t + 1) ?h') ! r))
            \<le> length (items_of (?h' ! r))"
      by (rule Cons.IH)
    also have "\<dots> \<le> length (items_of (h ! r))"
      by (rule w)
    finally show ?case
      using Cons.IH [of t h] w [of h "(flags_of (h ! nf_ref))[gi := False]" r]
      by simp
  qed
  have "length (items_of (snd (scan_gold_heap mode eq gold_ref (items_of (h ! pred_ref) ! i)
                                gold_indexes nf_ref t h) ! pred_ref))
          \<le> length (items_of (h ! pred_ref))"
    by (rule s)
  with i have "length (items_of (snd (scan_gold_heap mode eq gold_ref (items_of (h ! pred_ref) ! i)
                                gold_indexes nf_ref t h) ! pred_ref)) - Suc i
          < length (items_of (h ! pred_ref)) - i"
    by arith
  then show "((mode, eq, gold_ref, pred_ref, gold_indexes, nf_ref, i + 1,
           fst (scan_gold_heap mode eq gold_ref (items_of (h ! pred_ref) ! i)
                  gold_indexes nf_ref t h),
           snd (scan_gold_heap mode eq gold_ref (items_of (h ! pred_ref) ! i)
                  gold_indexes nf_ref t h)),
          (mode, eq, gold_ref, pred_ref, gold_indexes, nf_ref, i, t, h))
         \<in> measure (\<lambda>(mode, eq, gold_ref, pred_ref, gold_indexes, nf_ref, i, t, h).
                   length (items_of (h ! pred_ref)) - i)"
    by (simp add: case_prod_beta)
qed

definition RecordMetric_count_instance_heap ::
  "metric_class \<Rightarrow> metric \<Rightarrow> nat \<Rightarrow> nat \<Rightarrow> ('s, 'r::linorder) srecord heap
     \<Rightarrow> (metric \<times> error option) \<times> ('s, 'r) srecord heap" where
  "RecordMetric_count_instance_heap cls m gold_ref pred_ref h =
     (if match_mode m = ModeSet then ((m, Some NotImplementedError), h)
      else
        let m1 = m\<lparr>gold_num := gold_num m + length (items_of (h ! gold_ref)),
                   pred_num := pred_num m + length (items_of (h ! pred_ref))\<rparr>;
            gold_indexes = [0..<length (items_of (h ! gold_ref))]
        in (case alloc h (Flags (replicate (length (items_of (h ! gold_ref))) True)) of
              (h1, nf_ref) \<Rightarrow>
           (case record_loop_heap (match_mode m) (is_equal cls) gold_ref pred_ref
                   gold_indexes nf_ref 0 (tp m1) h1 of
              (t, h2) \<Rightarrow> ((m1\<lparr>tp := t\<rparr>, None), h2))))"

declare match_loop_heap.simps [simp del] record_loop_heap.simps [simp del]

subsection \<open>The example pairs an evaluation scores\<close>

text \<open>
  The notions the statements about unequal corpora use. \<open>scored_pairs\<close> are the pairs
  (prediction, gold) of the first \<open>min(len(gold), len(pred))\<close> examples; \<open>axis_calls\<close> are
  the arguments (gold list, predicted list) that one accumulator receives from them,
  and \<open>boundary_calls\<close> those of a boundary accumulator of the relation scorer.
  \<open>arity_mismatch\<close> is the condition under which the assertion of
  \<open>Metric.count_instance\<close> fails, and \<open>five_fields\<close> says that every tuple of an axis has
  the five fields that the boundary view reads. \<open>evt_calls\<close> are the calls of the four
  accumulators of the event scorer, and \<open>relation_pairs_ok\<close> says of the pairs that,
  outside \<open>set\<close> mode, no assertion of a strict accumulator fails on them and that the
  boundary view can be taken of all their tuples.
\<close>

definition arity_mismatch :: "'a list list \<times> 'a list list \<Rightarrow> bool" where
  "arity_mismatch c =
     (case c of (gold_list, pred_list) \<Rightarrow>
        length gold_list > 0 \<and> length pred_list > 0
        \<and> length (hd gold_list) \<noteq> length (hd pred_list))"

definition scored_pairs :: "inst list \<Rightarrow> inst list \<Rightarrow> (inst \<times> inst) list" where
  "scored_pairs gold_instance_list pred_instance_list =
     zip (take (min (length gold_instance_list) (length pred_instance_list)) pred_instance_list)
         (take (min (length gold_instance_list) (length pred_instance_list)) gold_instance_list)"

definition axis_calls :: "string \<Rightarrow> (inst \<times> inst) list \<Rightarrow> (item list \<times> item list) list" where
  "axis_calls key pairs =
     map (\<lambda>(pred, gold). (get_default gold key, get_default pred key)) pairs"

definition boundary_calls ::
  "string \<Rightarrow> (inst \<times> inst) list \<Rightarrow> (item list \<times> item list) list" where
  "boundary_calls key pairs =
     map (\<lambda>(gold_list, pred_list).
            (map (\<lambda>x. [x ! 0, x ! 2, x ! 4]) gold_list,
             map (\<lambda>x. [x ! 0, x ! 2, x ! 4]) pred_list))
       (axis_calls key pairs)"

definition five_fields :: "string \<Rightarrow> (inst \<times> inst) list \<Rightarrow> bool" where
  "five_fields key pairs \<longleftrightarrow>
     (\<forall>c \<in> set (axis_calls key pairs). \<forall>x \<in> set (fst c @ snd c). 5 \<le> length x)"

definition evt_calls :: "(inst \<times> inst) list \<Rightarrow> (item list \<times> item list) list" where
  "evt_calls pairs =
     axis_calls ''offset_trigger'' pairs @ axis_calls ''string_trigger'' pairs
     @ axis_calls ''offset_role'' pairs @ axis_calls ''string_role'' pairs"

definition relation_pairs_ok :: "match_mode \<Rightarrow> (inst \<times> inst) list \<Rightarrow> bool" where
  "relation_pairs_ok mode pairs \<longleftrightarrow>
     (mode = ModeSet
      \<or> \<not> (\<exists>c \<in> set (axis_calls ''offset'' pairs @ axis_calls ''string'' pairs).
              arity_mismatch c))
     \<and> five_fields ''offset'' pairs \<and> five_fields ''string'' pairs"

section \<open>Properties\<close>

subsection \<open>Precision, recall and F1\<close>

lemma compute_f1_Inr:
  "compute_f1 rnd m prefix = Inr (Map.empty
     (prefix @ ''tp'' \<mapsto> real (tp m),
      prefix @ ''gold'' \<mapsto> real (gold_num m),
      prefix @ ''pred'' \<mapsto> real (pred_num m),
      prefix @ ''P'' \<mapsto>
        rnd ((if pred_num m = 0 then 0 else rnd (real (tp m) / real (pred_num m))) * 100),
      prefix @ ''R'' \<mapsto>
        rnd ((if gold_num m = 0 then 0 else rnd (real (tp m) / real (gold_num m))) * 100),
      prefix @ ''F1'' \<mapsto>
        (let p = (if pred_num m = 0 then 0 else rnd (real (tp m) / real (pred_num m)));
             r = (if gold_num m = 0 then 0 else rnd (real (tp m) / real (gold_num m)))
         in rnd ((if rnd (p + r) = 0 then 0
                  else rnd (rnd (rnd (2 * p) * r) / rnd (p + r))) * 100))))"
  by (simp add: compute_f1_def safe_div_def py_truediv_def Let_def)

lemma int_binary64: "\<bar>k\<bar> < 2 ^ 53 \<Longrightarrow> real_of_int k \<in> binary64"
proof -
  assume "\<bar>k\<bar> < 2 ^ 53"
  then have "real_of_int k = real_of_int k * 2 powi 0 \<and> \<bar>k\<bar> < 2 ^ 53
               \<and> - 1074 \<le> (0::int) \<and> (0::int) \<le> 971"
    by simp
  then show ?thesis unfolding binary64_def by blast
qed

lemma zero_binary64: "0 \<in> binary64"
  using int_binary64 [of 0] by simp

lemma one_binary64: "1 \<in> binary64"
  using int_binary64 [of 1] by simp

lemma hundred_binary64: "100 \<in> binary64"
  using int_binary64 [of 100] by simp

lemma fifty_binary64: "50 \<in> binary64"
  using int_binary64 [of 50] by simp

lemma half_binary64: "1 / 2 \<in> binary64"
proof -
  have "(1 / 2 :: real) = real_of_int 1 * 2 powi (- 1) \<and> \<bar>1::int\<bar> < 2 ^ 53
          \<and> - 1074 \<le> (- 1 :: int) \<and> (- 1 :: int) \<le> 971"
    by (simp add: power_int_minus)
  then show ?thesis unfolding binary64_def by blast
qed

text \<open>
  Claim C5. \<open>compute_f1\<close> never raises: for every accumulator, every prefix and every
  rounding it returns a mapping whose keys are exactly the six strings
  \<open>prefix + 'tp'\<close>, \<open>'gold'\<close>, \<open>'pred'\<close>, \<open>'P'\<close>, \<open>'R'\<close>, \<open>'F1'\<close>. In the floating-point
  operations of the source, \<open>P\<close> is \<open>tp / pred_num\<close> times 100 and \<open>R\<close> is
  \<open>tp / gold_num\<close> times 100, where the quotient is 0 when its denominator is 0, and
  \<open>F1\<close> is \<open>2 * p * r / (p + r)\<close> times 100 for the unscaled ratios \<open>p\<close> and \<open>r\<close>, where
  the quotient is 0 when the rounded sum \<open>p + r\<close> is 0. With a rounding that leaves
  double-precision numbers as they are, \<open>P\<close> is 0 when \<open>pred_num\<close> is 0, \<open>R\<close> is 0 when
  \<open>gold_num\<close> is 0, and \<open>F1\<close> is 0 when \<open>p + r = 0\<close>.
\<close>

theorem compute_f1_six_keys:
  "\<exists>f. compute_f1 rnd m prefix = Inr f
     \<and> dom f = {prefix @ ''tp'', prefix @ ''gold'', prefix @ ''pred'',
                prefix @ ''P'', prefix @ ''R'', prefix @ ''F1''}
     \<and> card (dom f) = 6
     \<and> f (prefix @ ''tp'') = Some (real (tp m))
     \<and> f (prefix @ ''gold'') = Some (real (gold_num m))
     \<and> f (prefix @ ''pred'') = Some (real (pred_num m))
     \<and> f (prefix @ ''P'')
         = Some (rnd ((if pred_num m = 0 then 0
                       else rnd (real (tp m) / real (pred_num m))) * 100))
     \<and> f (prefix @ ''R'')
         = Some (rnd ((if gold_num m = 0 then 0
                       else rnd (real (tp m) / real (gold_num m))) * 100))
     \<and> f (prefix @ ''F1'')
         = Some (let p = (if pred_num m = 0 then 0
                          else rnd (real (tp m) / real (pred_num m)));
                     r = (if gold_num m = 0 then 0
                          else rnd (real (tp m) / real (gold_num m)))
                 in rnd ((if rnd (p + r) = 0 then 0
                          else rnd (rnd (rnd (2 * p) * r) / rnd (p + r))) * 100))
     \<and> ((\<forall>x \<in> binary64. rnd x = x) \<longrightarrow>
          (pred_num m = 0 \<longrightarrow> f (prefix @ ''P'') = Some 0)
          \<and> (gold_num m = 0 \<longrightarrow> f (prefix @ ''R'') = Some 0)
          \<and> ((if pred_num m = 0 then 0 else rnd (real (tp m) / real (pred_num m)))
               + (if gold_num m = 0 then 0 else rnd (real (tp m) / real (gold_num m))) = 0
              \<longrightarrow> f (prefix @ ''F1'') = Some 0))"
proof -
  have z: "rnd 0 = 0" if "\<forall>x \<in> binary64. rnd x = x"
    using that zero_binary64 by blast
  show ?thesis
    unfolding compute_f1_Inr
    apply (rule exI, intro conjI, rule refl)
            apply (simp; blast)
           apply simp
          apply simp
         apply simp
        apply simp
       apply simp
      apply simp
     apply (simp add: Let_def)
    apply (intro impI conjI)
      apply (simp add: z)
     apply (simp add: z)
    apply (simp add: z Let_def)
    done
qed

theorem compute_f1_six_keys_witness:
  "compute_f1 (\<lambda>x. x) \<lparr>tp = 1, gold_num = 3, pred_num = 3, match_mode = ModeNormal\<rparr>
     ''offset-ent-''
     = Inr [''offset-ent-tp'' \<mapsto> 1, ''offset-ent-gold'' \<mapsto> 3, ''offset-ent-pred'' \<mapsto> 3,
            ''offset-ent-P'' \<mapsto> 100 / 3, ''offset-ent-R'' \<mapsto> 100 / 3,
            ''offset-ent-F1'' \<mapsto> 100 / 3]
   \<and> compute_f1 (\<lambda>x. x) \<lparr>tp = 0, gold_num = 2, pred_num = 0, match_mode = ModeNormal\<rparr>
       ''string-ent-''
     = Inr [''string-ent-tp'' \<mapsto> 0, ''string-ent-gold'' \<mapsto> 2, ''string-ent-pred'' \<mapsto> 0,
            ''string-ent-P'' \<mapsto> 0, ''string-ent-R'' \<mapsto> 0, ''string-ent-F1'' \<mapsto> 0]"
proof -
  have h: "\<forall>x \<in> binary64. (\<lambda>x. x) x = x"
    by simp
  have a: "compute_f1 (\<lambda>x. x) \<lparr>tp = 1, gold_num = 3, pred_num = 3, match_mode = ModeNormal\<rparr>
             ''offset-ent-''
     = Inr [''offset-ent-tp'' \<mapsto> 1, ''offset-ent-gold'' \<mapsto> 3, ''offset-ent-pred'' \<mapsto> 3,
            ''offset-ent-P'' \<mapsto> 100 / 3, ''offset-ent-R'' \<mapsto> 100 / 3,
            ''offset-ent-F1'' \<mapsto> 100 / 3]"
    by (simp add: compute_f1_Inr)
  have b: "compute_f1 (\<lambda>x. x) \<lparr>tp = 0, gold_num = 2, pred_num = 0, match_mode = ModeNormal\<rparr>
             ''string-ent-''
     = Inr [''string-ent-tp'' \<mapsto> 0, ''string-ent-gold'' \<mapsto> 2, ''string-ent-pred'' \<mapsto> 0,
            ''string-ent-P'' \<mapsto> 0, ''string-ent-R'' \<mapsto> 0, ''string-ent-F1'' \<mapsto> 0]"
    by (simp add: compute_f1_Inr)
  show ?thesis
    using compute_f1_six_keys
      [of "\<lambda>x. x" "\<lparr>tp = 0, gold_num = 2, pred_num = 0, match_mode = ModeNormal\<rparr>"
          "''string-ent-''"]
      h a b
    by simp
qed

subsection \<open>The three matching modes of \<open>Metric.count_instance\<close>\<close>

lemma match_loop_normal:
  "match_loop ModeNormal dup preds t = t + size (mset dup \<inter># mset preds)"
proof (induction preds arbitrary: dup t)
  case Nil
  show ?case by simp
next
  case (Cons p rest)
  show ?case
  proof (cases "p \<in> set dup")
    case True
    then have "p \<in># mset dup" by simp
    then have "mset dup \<inter># add_mset p (mset rest)
                 = add_mset p ((mset dup - {#p#}) \<inter># mset rest)"
      by (rule inter_add_right2)
    with True show ?thesis by (simp add: Cons.IH)
  next
    case False
    then have "\<not> p \<in># mset dup" by simp
    then have "mset dup \<inter># add_mset p (mset rest) = mset dup \<inter># mset rest"
      by (rule inter_add_right1)
    with False show ?thesis by (simp add: Cons.IH)
  qed
qed

lemma match_loop_multimatch:
  "match_loop ModeMultimatch dup preds t = t + length (filter (\<lambda>p. p \<in> set dup) preds)"
  by (induction preds arbitrary: t) simp_all

lemma count_instance_normal:
  assumes "match_mode m = ModeNormal"
    and "\<not> (length gold_list > 0 \<and> length pred_list > 0
              \<and> length (hd gold_list) \<noteq> length (hd pred_list))"
  shows "count_instance m gold_list pred_list =
     (m\<lparr>gold_num := gold_num m + length gold_list,
        pred_num := pred_num m + length pred_list,
        tp := tp m + size (mset gold_list \<inter># mset pred_list)\<rparr>, None)"
  using assms by (simp add: count_instance_def Let_def match_loop_normal)

lemma count_instance_multimatch:
  assumes "match_mode m = ModeMultimatch"
    and "\<not> (length gold_list > 0 \<and> length pred_list > 0
              \<and> length (hd gold_list) \<noteq> length (hd pred_list))"
  shows "count_instance m gold_list pred_list =
     (m\<lparr>gold_num := gold_num m + length gold_list,
        pred_num := pred_num m + length pred_list,
        tp := tp m + length (filter (\<lambda>p. p \<in> set gold_list) pred_list)\<rparr>, None)"
  using assms by (simp add: count_instance_def Let_def match_loop_multimatch)

lemma count_instance_set:
  assumes "match_mode m = ModeSet"
  shows "count_instance m gold_list pred_list =
     (m\<lparr>gold_num := gold_num m + card (set gold_list),
        pred_num := pred_num m + card (set pred_list),
        tp := tp m + card (set gold_list \<inter> set pred_list)\<rparr>, None)"
  using assms by (simp add: count_instance_def)

text \<open>
  Claim C3. In \<open>normal\<close> mode the loop matches greedily one to one: a call that passes
  the arity assertion adds the raw lengths to \<open>gold_num\<close> and \<open>pred_num\<close> and adds to
  \<open>tp\<close> the size of the multiset intersection of the two lists, so that no gold
  occurrence is matched by two predictions. Gold \<open>[("PER","a"),("PER","a")]\<close> with
  pred \<open>[("PER","a")]\<close> gives \<open>tp = 1\<close>, \<open>gold_num = 2\<close>, \<open>pred_num = 1\<close>, hence
  \<open>P = 100\<close> and \<open>R = 50\<close> (the results of \<open>1 / 1\<close>, \<open>1 / 2\<close>, \<open>1 * 100\<close> and
  \<open>0.5 * 100\<close> are double-precision numbers, which a rounding leaves as they are).
\<close>

theorem normal_mode_greedy_one_to_one:
  "(match_mode m = ModeNormal
      \<and> \<not> (length gold_list > 0 \<and> length pred_list > 0
              \<and> length (hd gold_list) \<noteq> length (hd pred_list))
    \<longrightarrow> count_instance m gold_list pred_list =
          (m\<lparr>gold_num := gold_num m + length gold_list,
             pred_num := pred_num m + length pred_list,
             tp := tp m + size (mset gold_list \<inter># mset pred_list)\<rparr>, None))
   \<and> count_instance (Metric_init ModeNormal)
        [[''PER'', ''a''], [''PER'', ''a'']] [[''PER'', ''a'']]
       = (\<lparr>tp = 1, gold_num = 2, pred_num = 1, match_mode = ModeNormal\<rparr>, None)
   \<and> ((\<forall>x \<in> binary64. rnd x = x) \<longrightarrow>
       (\<exists>f. compute_f1 rnd
               \<lparr>tp = 1, gold_num = 2, pred_num = 1, match_mode = ModeNormal\<rparr> ''''
             = Inr f \<and> f ''P'' = Some 100 \<and> f ''R'' = Some 50))"
proof (intro conjI impI)
  assume "match_mode m = ModeNormal
      \<and> \<not> (length gold_list > 0 \<and> length pred_list > 0
              \<and> length (hd gold_list) \<noteq> length (hd pred_list))"
  then show "count_instance m gold_list pred_list =
          (m\<lparr>gold_num := gold_num m + length gold_list,
             pred_num := pred_num m + length pred_list,
             tp := tp m + size (mset gold_list \<inter># mset pred_list)\<rparr>, None)"
    by (intro count_instance_normal) simp_all
next
  show "count_instance (Metric_init ModeNormal)
        [[''PER'', ''a''], [''PER'', ''a'']] [[''PER'', ''a'']]
       = (\<lparr>tp = 1, gold_num = 2, pred_num = 1, match_mode = ModeNormal\<rparr>, None)"
    by (simp add: count_instance_def Metric_init_def)
next
  assume r: "\<forall>x \<in> binary64. rnd x = x"
  have e: "rnd 1 = 1" "rnd (1 / 2) = 1 / 2" "rnd 100 = 100" "rnd 50 = 50"
    using r one_binary64 half_binary64 hundred_binary64 fifty_binary64 by blast+
  have p: "rnd (rnd 1 * 100) = 100"
    unfolding e(1) by (simp add: e(3))
  have q: "rnd (rnd (1 / 2) * 100) = 50"
    unfolding e(2) by (simp add: e(4))
  show "\<exists>f. compute_f1 rnd
               \<lparr>tp = 1, gold_num = 2, pred_num = 1, match_mode = ModeNormal\<rparr> ''''
             = Inr f \<and> f ''P'' = Some 100 \<and> f ''R'' = Some 50"
    by (simp add: compute_f1_Inr p q)
qed

theorem normal_mode_greedy_one_to_one_witness:
  "match_mode (Metric_init ModeNormal) = ModeNormal
   \<and> \<not> (length [[''PER'', ''a''], [''ORG'', ''b'']] > 0
          \<and> length [[''PER'', ''a''], [''PER'', ''a''], [''LOC'', ''c'']] > 0
          \<and> length (hd [[''PER'', ''a''], [''ORG'', ''b'']])
              \<noteq> length (hd [[''PER'', ''a''], [''PER'', ''a''], [''LOC'', ''c'']]))
   \<and> count_instance (Metric_init ModeNormal)
        [[''PER'', ''a''], [''ORG'', ''b'']]
        [[''PER'', ''a''], [''PER'', ''a''], [''LOC'', ''c'']]
      = (\<lparr>tp = 1, gold_num = 2, pred_num = 3, match_mode = ModeNormal\<rparr>, None)
   \<and> compute_f1 (\<lambda>x. x) \<lparr>tp = 1, gold_num = 2, pred_num = 1, match_mode = ModeNormal\<rparr> ''''
      = Inr [''tp'' \<mapsto> 1, ''gold'' \<mapsto> 2, ''pred'' \<mapsto> 1,
             ''P'' \<mapsto> 100, ''R'' \<mapsto> 50, ''F1'' \<mapsto> 200 / 3]"
proof -
  have a: "match_mode (Metric_init ModeNormal) = ModeNormal
   \<and> \<not> (length [[''PER'', ''a''], [''ORG'', ''b'']] > 0
          \<and> length [[''PER'', ''a''], [''PER'', ''a''], [''LOC'', ''c'']] > 0
          \<and> length (hd [[''PER'', ''a''], [''ORG'', ''b'']])
              \<noteq> length (hd [[''PER'', ''a''], [''PER'', ''a''], [''LOC'', ''c'']]))
   \<and> count_instance (Metric_init ModeNormal)
        [[''PER'', ''a''], [''ORG'', ''b'']]
        [[''PER'', ''a''], [''PER'', ''a''], [''LOC'', ''c'']]
      = (\<lparr>tp = 1, gold_num = 2, pred_num = 3, match_mode = ModeNormal\<rparr>, None)"
    using normal_mode_greedy_one_to_one
      [of "Metric_init ModeNormal" "[[''PER'', ''a''], [''ORG'', ''b'']]"
          "[[''PER'', ''a''], [''PER'', ''a''], [''LOC'', ''c'']]" "\<lambda>x. x"]
    by (simp add: Metric_init_def inter_add_right1 inter_add_right2
          inter_add_left1 inter_add_left2)
  have b: "compute_f1 (\<lambda>x. x)
             \<lparr>tp = 1, gold_num = 2, pred_num = 1, match_mode = ModeNormal\<rparr> ''''
      = Inr [''tp'' \<mapsto> 1, ''gold'' \<mapsto> 2, ''pred'' \<mapsto> 1,
             ''P'' \<mapsto> 100, ''R'' \<mapsto> 50, ''F1'' \<mapsto> 200 / 3]"
    by (simp add: compute_f1_Inr)
  show ?thesis using a b by blast
qed

text \<open>
  Claim C4. In \<open>multimatch\<close> mode no gold element is ever removed: a call that passes
  the arity assertion adds to \<open>tp\<close> the number of predictions that occur in the gold
  list, and the raw lengths to \<open>gold_num\<close> and \<open>pred_num\<close>. Gold
  \<open>[("PER","a"),("PER","a")]\<close> gives \<open>tp = 1\<close> with pred \<open>[("PER","a")]\<close> and
  \<open>tp = 2\<close> with pred \<open>[("PER","a"),("PER","a")]\<close>.
\<close>

theorem multimatch_mode_never_removes:
  "(match_mode m = ModeMultimatch
      \<and> \<not> (length gold_list > 0 \<and> length pred_list > 0
              \<and> length (hd gold_list) \<noteq> length (hd pred_list))
    \<longrightarrow> count_instance m gold_list pred_list =
          (m\<lparr>gold_num := gold_num m + length gold_list,
             pred_num := pred_num m + length pred_list,
             tp := tp m + length (filter (\<lambda>p. p \<in> set gold_list) pred_list)\<rparr>, None))
   \<and> count_instance (Metric_init ModeMultimatch)
        [[''PER'', ''a''], [''PER'', ''a'']] [[''PER'', ''a'']]
       = (\<lparr>tp = 1, gold_num = 2, pred_num = 1, match_mode = ModeMultimatch\<rparr>, None)
   \<and> count_instance (Metric_init ModeMultimatch)
        [[''PER'', ''a''], [''PER'', ''a'']] [[''PER'', ''a''], [''PER'', ''a'']]
       = (\<lparr>tp = 2, gold_num = 2, pred_num = 2, match_mode = ModeMultimatch\<rparr>, None)"
proof (intro conjI impI)
  assume "match_mode m = ModeMultimatch
      \<and> \<not> (length gold_list > 0 \<and> length pred_list > 0
              \<and> length (hd gold_list) \<noteq> length (hd pred_list))"
  then show "count_instance m gold_list pred_list =
          (m\<lparr>gold_num := gold_num m + length gold_list,
             pred_num := pred_num m + length pred_list,
             tp := tp m + length (filter (\<lambda>p. p \<in> set gold_list) pred_list)\<rparr>, None)"
    by (intro count_instance_multimatch) simp_all
next
  show "count_instance (Metric_init ModeMultimatch)
        [[''PER'', ''a''], [''PER'', ''a'']] [[''PER'', ''a'']]
       = (\<lparr>tp = 1, gold_num = 2, pred_num = 1, match_mode = ModeMultimatch\<rparr>, None)"
    by (simp add: count_instance_def Metric_init_def)
next
  show "count_instance (Metric_init ModeMultimatch)
        [[''PER'', ''a''], [''PER'', ''a'']] [[''PER'', ''a''], [''PER'', ''a'']]
       = (\<lparr>tp = 2, gold_num = 2, pred_num = 2, match_mode = ModeMultimatch\<rparr>, None)"
    by (simp add: count_instance_def Metric_init_def)
qed

theorem multimatch_mode_never_removes_witness:
  "match_mode (Metric_init ModeMultimatch) = ModeMultimatch
   \<and> \<not> (length [[''PER'', ''a''], [''ORG'', ''b'']] > 0
          \<and> length [[''PER'', ''a''], [''PER'', ''a''], [''LOC'', ''c'']] > 0
          \<and> length (hd [[''PER'', ''a''], [''ORG'', ''b'']])
              \<noteq> length (hd [[''PER'', ''a''], [''PER'', ''a''], [''LOC'', ''c'']]))
   \<and> count_instance (Metric_init ModeMultimatch)
        [[''PER'', ''a''], [''ORG'', ''b'']]
        [[''PER'', ''a''], [''PER'', ''a''], [''LOC'', ''c'']]
      = (\<lparr>tp = 2, gold_num = 2, pred_num = 3, match_mode = ModeMultimatch\<rparr>, None)"
  using multimatch_mode_never_removes
    [of "Metric_init ModeMultimatch" "[[''PER'', ''a''], [''ORG'', ''b'']]"
        "[[''PER'', ''a''], [''PER'', ''a''], [''LOC'', ''c'']]"]
  by (simp add: Metric_init_def)

text \<open>
  Claim C6. In \<open>set\<close> mode a call adds the number of distinct gold items to
  \<open>gold_num\<close>, the number of distinct predicted items to \<open>pred_num\<close> and the size of the
  intersection of the two sets to \<open>tp\<close>; two calls whose lists have the same elements,
  whatever their multiplicities, leave the same accumulator.
\<close>

theorem set_mode_deduplicates:
  "match_mode m = ModeSet \<longrightarrow>
     count_instance m gold_list pred_list =
       (m\<lparr>gold_num := gold_num m + card (set gold_list),
          pred_num := pred_num m + card (set pred_list),
          tp := tp m + card (set gold_list \<inter> set pred_list)\<rparr>, None)
     \<and> card (set gold_list) = length (remdups gold_list)
     \<and> card (set pred_list) = length (remdups pred_list)
     \<and> card (set gold_list \<inter> set pred_list)
         = length (filter (\<lambda>x. x \<in> set pred_list) (remdups gold_list))
     \<and> (set gold_list' = set gold_list \<and> set pred_list' = set pred_list
          \<longrightarrow> count_instance m gold_list' pred_list' = count_instance m gold_list pred_list)"
proof (intro impI conjI)
  assume s: "match_mode m = ModeSet"
  show "count_instance m gold_list pred_list =
       (m\<lparr>gold_num := gold_num m + card (set gold_list),
          pred_num := pred_num m + card (set pred_list),
          tp := tp m + card (set gold_list \<inter> set pred_list)\<rparr>, None)"
    using s by (rule count_instance_set)
  show "card (set gold_list) = length (remdups gold_list)"
    by (rule List.card_set)
  show "card (set pred_list) = length (remdups pred_list)"
    by (rule List.card_set)
  have e: "set gold_list \<inter> set pred_list
          = set (filter (\<lambda>x. x \<in> set pred_list) (remdups gold_list))"
    by auto
  have "distinct (filter (\<lambda>x. x \<in> set pred_list) (remdups gold_list))"
    by simp
  then have "card (set (filter (\<lambda>x. x \<in> set pred_list) (remdups gold_list)))
         = length (filter (\<lambda>x. x \<in> set pred_list) (remdups gold_list))"
    by (rule distinct_card)
  then show "card (set gold_list \<inter> set pred_list)
         = length (filter (\<lambda>x. x \<in> set pred_list) (remdups gold_list))"
    unfolding e .
  assume "set gold_list' = set gold_list \<and> set pred_list' = set pred_list"
  then show "count_instance m gold_list' pred_list' = count_instance m gold_list pred_list"
    using s by (simp add: count_instance_def)
qed

theorem set_mode_deduplicates_witness:
  "match_mode (Metric_init ModeSet) = ModeSet
   \<and> set [[''PER'', ''a''], [''PER'', ''a''], [''ORG'', ''b''], [''PER'', ''a'']]
       = set [[''PER'', ''a''], [''ORG'', ''b'']]
   \<and> set [[''PER'', ''a''], [''PER'', ''a'']] = set [[''PER'', ''a'']]
   \<and> count_instance (Metric_init ModeSet)
        [[''PER'', ''a''], [''PER'', ''a''], [''ORG'', ''b''], [''PER'', ''a'']]
        [[''PER'', ''a''], [''PER'', ''a'']]
       = count_instance (Metric_init ModeSet)
           [[''PER'', ''a''], [''ORG'', ''b'']] [[''PER'', ''a'']]
   \<and> count_instance (Metric_init ModeSet)
        [[''PER'', ''a''], [''ORG'', ''b'']] [[''PER'', ''a'']]
       = (\<lparr>tp = 1, gold_num = 2, pred_num = 1, match_mode = ModeSet\<rparr>, None)"
proof -
  have h1: "match_mode (Metric_init ModeSet) = ModeSet"
    by (simp add: Metric_init_def)
  have h2: "set [[''PER'', ''a''], [''PER'', ''a''], [''ORG'', ''b''], [''PER'', ''a'']]
              = set [[''PER'', ''a''], [''ORG'', ''b'']]
            \<and> set [[''PER'', ''a''], [''PER'', ''a'']] = set [[''PER'', ''a'']]"
    by auto
  have c: "count_instance (Metric_init ModeSet)
        [[''PER'', ''a''], [''ORG'', ''b'']] [[''PER'', ''a'']]
       = (\<lparr>tp = 1, gold_num = 2, pred_num = 1, match_mode = ModeSet\<rparr>, None)"
    by (simp add: count_instance_def Metric_init_def)
  show ?thesis
    using set_mode_deduplicates
      [of "Metric_init ModeSet" "[[''PER'', ''a''], [''ORG'', ''b'']]" "[[''PER'', ''a'']]"
          "[[''PER'', ''a''], [''PER'', ''a''], [''ORG'', ''b''], [''PER'', ''a'']]"
          "[[''PER'', ''a''], [''PER'', ''a'']]"] h1 h2 c
    by blast
qed

subsection \<open>Programming errors\<close>

lemma count_instance_arity:
  assumes "match_mode m \<noteq> ModeSet" "gold_list \<noteq> []" "pred_list \<noteq> []"
    and "length (hd gold_list) \<noteq> length (hd pred_list)"
  shows "count_instance m gold_list pred_list =
           (m\<lparr>gold_num := gold_num m + length gold_list,
              pred_num := pred_num m + length pred_list\<rparr>, Some AssertionError)"
  using assms by (simp add: count_instance_def Let_def)

lemma load_gold_records_error:
  "load_gold_records gold gi = Inl e \<Longrightarrow> e = AssertionError"
  by (induction gold arbitrary: gi) (auto simp: Let_def split: if_splits)

lemma load_gold_records_bad:
  "\<exists>r \<in> set gold. length (args r) \<noteq> 2 \<Longrightarrow> load_gold_records gold gi = Inl AssertionError"
  by (induction gold arbitrary: gi) (auto simp: Let_def)

lemma load_gold_loop_bad:
  "\<exists>gold \<in> set gold_list. \<exists>r \<in> set gold. length (args r) \<noteq> 2
     \<Longrightarrow> load_gold_loop gold_list acc = Inl AssertionError"
proof (induction gold_list arbitrary: acc)
  case Nil
  then show ?case by simp
next
  case (Cons gold rest)
  show ?case
  proof (cases "load_gold_records gold Map.empty")
    case (Inl e)
    then show ?thesis by (simp add: load_gold_records_error)
  next
    case (Inr gi)
    then have "\<not> (\<exists>r \<in> set gold. length (args r) \<noteq> 2)"
      using load_gold_records_bad [of gold Map.empty] by auto
    with Cons.prems have "\<exists>g \<in> set rest. \<exists>r \<in> set g. length (args r) \<noteq> 2"
      by auto
    then show ?thesis using Inr by (simp add: Cons.IH)
  qed
qed

text \<open>
  Claim C8. The three programming errors fail fast. Outside \<open>set\<close> mode
  \<open>Metric.count_instance\<close> raises \<open>AssertionError\<close> whenever both lists are non-empty
  and their first elements differ in length (so a scorer calling it aborts);
  \<open>RelationScorer.load_gold_list\<close> raises \<open>AssertionError\<close> as soon as some gold record
  of some example does not have exactly two \<open>args\<close>; and in \<open>set\<close> mode every call of
  \<open>RecordMetric.count_instance\<close>, of either record class, raises
  \<open>NotImplementedError\<close> and leaves the accumulator as it was.
\<close>

theorem programming_errors_fail_fast:
  "(match_mode m \<noteq> ModeSet \<and> gold_list \<noteq> [] \<and> pred_list \<noteq> []
      \<and> length (hd gold_list) \<noteq> length (hd pred_list)
     \<longrightarrow> snd (count_instance m gold_list pred_list) = Some AssertionError
         \<and> call_count m gold_list pred_list = Inl AssertionError)
   \<and> ((\<exists>gold \<in> set raw_gold. \<exists>r \<in> set gold. length (args r) \<noteq> 2)
     \<longrightarrow> RelationScorer_load_gold_list raw_gold = Inl AssertionError)
   \<and> (match_mode m' = ModeSet
     \<longrightarrow> RecordMetric_count_instance cls m' gold_records pred_records
           = (m', Some NotImplementedError))"
proof (intro conjI impI)
  assume a: "match_mode m \<noteq> ModeSet \<and> gold_list \<noteq> [] \<and> pred_list \<noteq> []
      \<and> length (hd gold_list) \<noteq> length (hd pred_list)"
  then have c: "count_instance m gold_list pred_list =
           (m\<lparr>gold_num := gold_num m + length gold_list,
              pred_num := pred_num m + length pred_list\<rparr>, Some AssertionError)"
    by (intro count_instance_arity) simp_all
  show "snd (count_instance m gold_list pred_list) = Some AssertionError"
    by (simp add: c)
  show "call_count m gold_list pred_list = Inl AssertionError"
    by (simp add: call_count_def c)
next
  assume "\<exists>gold \<in> set raw_gold. \<exists>r \<in> set gold. length (args r) \<noteq> 2"
  then show "RelationScorer_load_gold_list raw_gold = Inl AssertionError"
    unfolding RelationScorer_load_gold_list_def by (rule load_gold_loop_bad)
next
  assume "match_mode m' = ModeSet"
  then show "RecordMetric_count_instance cls m' gold_records pred_records
           = (m', Some NotImplementedError)"
    by (simp add: RecordMetric_count_instance_def)
qed

theorem programming_errors_fail_fast_witness:
  "(match_mode (Metric_init ModeNormal) \<noteq> ModeSet
      \<and> [[''PER'', ''a'']] \<noteq> [] \<and> [[''REL'', ''PER'', ''a'']] \<noteq> []
      \<and> length (hd [[''PER'', ''a'']]) \<noteq> length (hd [[''REL'', ''PER'', ''a'']])
      \<and> snd (count_instance (Metric_init ModeNormal) [[''PER'', ''a'']] [[''REL'', ''PER'', ''a'']])
           = Some AssertionError)
   \<and> ((\<exists>gold \<in> set [[\<lparr>rel_type = ''REL'',
                           args = [\<lparr>arg_type = ''PER'', arg_offset = [0, 1],
                                    arg_text = ''Bob''\<rparr>]\<rparr>]].
          \<exists>r \<in> set gold. length (args r) \<noteq> 2)
       \<and> RelationScorer_load_gold_list
            [[\<lparr>rel_type = ''REL'',
               args = [\<lparr>arg_type = ''PER'', arg_offset = [0, 1], arg_text = ''Bob''\<rparr>]\<rparr>]]
           = Inl AssertionError)
   \<and> (match_mode (Metric_init ModeSet) = ModeSet
       \<and> RecordMetric_count_instance RecordMetric (Metric_init ModeSet)
            [\<lparr>type = ''Attack'', spot = ''fired'', asocs = [(''Target'', ''base'')]\<rparr>]
            [\<lparr>type = ''Attack'', spot = ''fired'', asocs = [(''Target'', ''base'')]\<rparr>]
           = (Metric_init ModeSet, Some NotImplementedError))"
  using programming_errors_fail_fast
    [of "Metric_init ModeNormal" "[[''PER'', ''a'']]" "[[''REL'', ''PER'', ''a'']]"
        "[[\<lparr>rel_type = ''REL'',
             args = [\<lparr>arg_type = ''PER'', arg_offset = [0, 1], arg_text = ''Bob''\<rparr>]\<rparr>]]"
        "Metric_init ModeSet" RecordMetric
        "[\<lparr>type = ''Attack'', spot = ''fired'', asocs = [(''Target'', ''base'')]\<rparr>]"
        "[\<lparr>type = ''Attack'', spot = ''fired'', asocs = [(''Target'', ''base'')]\<rparr>]"]
  by (simp add: Metric_init_def)

subsection \<open>Bounds on the true positives\<close>

lemma match_loop_le_pred: "match_loop mode dup preds t \<le> t + length preds"
proof (induction preds arbitrary: dup t)
  case Nil
  show ?case by simp
next
  case (Cons p rest)
  have a: "match_loop mode (if mode = ModeNormal then remove1 p dup else dup) rest (t + 1)
             \<le> t + 1 + length rest"
    by (rule Cons.IH)
  have b: "match_loop mode dup rest t \<le> t + length rest"
    by (rule Cons.IH)
  show ?case using a b by simp
qed

lemma match_loop_normal_le_gold: "match_loop ModeNormal dup preds t \<le> t + length dup"
proof -
  have "size (mset dup \<inter># mset preds) \<le> size (mset dup)"
    by (rule size_mset_mono) simp
  then show ?thesis by (simp add: match_loop_normal)
qed

lemma count_instance_mode [simp]:
  "match_mode (fst (count_instance m g p)) = match_mode m"
  by (simp add: count_instance_def Let_def)

lemma count_instance_tp_le_pred:
  assumes "tp m \<le> pred_num m"
  shows "tp (fst (count_instance m g p)) \<le> pred_num (fst (count_instance m g p))"
proof (cases "match_mode m = ModeSet")
  case True
  have "card (set g \<inter> set p) \<le> card (set p)"
    by (rule card_mono) simp_all
  with assms True show ?thesis by (simp add: count_instance_def)
next
  case False
  have "match_loop (match_mode m) g p (tp m) \<le> tp m + length p"
    by (rule match_loop_le_pred)
  with assms False show ?thesis by (simp add: count_instance_def Let_def)
qed

lemma count_instance_tp_le_gold:
  assumes "tp m \<le> gold_num m" "match_mode m \<noteq> ModeMultimatch"
  shows "tp (fst (count_instance m g p)) \<le> gold_num (fst (count_instance m g p))"
proof (cases "match_mode m")
  case ModeSet
  have "card (set g \<inter> set p) \<le> card (set g)"
    by (rule card_mono) simp_all
  with assms ModeSet show ?thesis by (simp add: count_instance_def)
next
  case ModeNormal
  have "match_loop ModeNormal g p (tp m) \<le> tp m + length g"
    by (rule match_loop_normal_le_gold)
  with assms ModeNormal show ?thesis by (simp add: count_instance_def Let_def)
next
  case ModeMultimatch
  with assms show ?thesis by simp
qed

lemma run_metric_tp_le_pred:
  "tp m \<le> pred_num m \<Longrightarrow> tp (run_metric m calls) \<le> pred_num (run_metric m calls)"
proof (induction calls arbitrary: m)
  case Nil
  then show ?case by simp
next
  case (Cons c calls)
  obtain g p where c: "c = (g, p)" by (cases c)
  show ?case unfolding c run_metric.simps
    by (rule Cons.IH) (rule count_instance_tp_le_pred [OF Cons.prems])
qed

lemma run_metric_tp_le_gold:
  "tp m \<le> gold_num m \<Longrightarrow> match_mode m \<noteq> ModeMultimatch
     \<Longrightarrow> tp (run_metric m calls) \<le> gold_num (run_metric m calls)"
proof (induction calls arbitrary: m)
  case Nil
  then show ?case by simp
next
  case (Cons c calls)
  obtain g p where c: "c = (g, p)" by (cases c)
  show ?case unfolding c run_metric.simps
  proof (rule Cons.IH)
    show "tp (fst (count_instance m g p)) \<le> gold_num (fst (count_instance m g p))"
      using Cons.prems by (rule count_instance_tp_le_gold)
    show "match_mode (fst (count_instance m g p)) \<noteq> ModeMultimatch"
      using Cons.prems by simp
  qed
qed

lemma count_list_flag_consumed:
  "i < length nf \<Longrightarrow> nf ! i \<Longrightarrow> Suc (count_list (nf[i := False]) True) = count_list nf True"
proof (induction nf arbitrary: i)
  case Nil
  then show ?case by simp
next
  case (Cons b nf)
  show ?case
  proof (cases i)
    case 0
    with Cons.prems show ?thesis by simp
  next
    case (Suc j)
    with Cons.prems have "Suc (count_list (nf[j := False]) True) = count_list nf True"
      by (intro Cons.IH) simp_all
    with Suc show ?thesis by simp
  qed
qed

lemma scan_gold_conserve:
  "set gold_indexes \<subseteq> {..<length nf}
     \<Longrightarrow> scan_gold mode eq gold_list pred gold_indexes (t, nf) = (t', nf')
     \<Longrightarrow> length nf' = length nf \<and> t' + count_list nf' True = t + count_list nf True"
proof (induction gold_indexes arbitrary: t nf)
  case Nil
  then show ?case by simp
next
  case (Cons i rest)
  from Cons.prems(1) have i: "i < length nf" and rest: "set rest \<subseteq> {..<length nf}"
    by simp_all
  show ?case
  proof (cases "nf ! i \<and> eq (gold_list ! i) pred")
    case False
    with Cons.prems(2) have "scan_gold mode eq gold_list pred rest (t, nf) = (t', nf')"
      by auto
    with rest show ?thesis by (rule Cons.IH)
  next
    case True
    then have c: "Suc (count_list (nf[i := False]) True) = count_list nf True"
      using i by (intro count_list_flag_consumed) simp_all
    show ?thesis
    proof (cases "mode = ModeNormal")
      case True
      with \<open>nf ! i \<and> eq (gold_list ! i) pred\<close> Cons.prems(2)
      have "t' = t + 1" "nf' = nf[i := False]" by auto
      with c show ?thesis by simp
    next
      case False
      with \<open>nf ! i \<and> eq (gold_list ! i) pred\<close> Cons.prems(2)
      have s: "scan_gold mode eq gold_list pred rest (t + 1, nf[i := False]) = (t', nf')"
        by auto
      have "set rest \<subseteq> {..<length (nf[i := False])}"
        using rest by simp
      from Cons.IH [OF this s] c show ?thesis by simp
    qed
  qed
qed

lemma scan_gold_normal_le:
  "scan_gold ModeNormal eq gold_list pred gold_indexes (t, nf) = (t', nf') \<Longrightarrow> t' \<le> t + 1"
  by (induction gold_indexes arbitrary: t nf) (auto split: if_splits)

lemma record_loop_conserve:
  "set gold_indexes \<subseteq> {..<length nf}
     \<Longrightarrow> record_loop mode eq gold_list gold_indexes preds (t, nf) = (t', nf')
     \<Longrightarrow> length nf' = length nf \<and> t' + count_list nf' True = t + count_list nf True"
proof (induction preds arbitrary: t nf)
  case Nil
  then show ?case by simp
next
  case (Cons p rest)
  obtain t1 nf1 where s: "scan_gold mode eq gold_list p gold_indexes (t, nf) = (t1, nf1)"
    by (cases "scan_gold mode eq gold_list p gold_indexes (t, nf)")
  from scan_gold_conserve [OF Cons.prems(1) s]
  have l: "length nf1 = length nf" and c: "t1 + count_list nf1 True = t + count_list nf True"
    by simp_all
  from Cons.prems(2) s
  have r: "record_loop mode eq gold_list gold_indexes rest (t1, nf1) = (t', nf')"
    by simp
  have "set gold_indexes \<subseteq> {..<length nf1}"
    using Cons.prems(1) l by simp
  from Cons.IH [OF this r] l c show ?case by simp
qed

lemma record_loop_normal_le:
  "record_loop ModeNormal eq gold_list gold_indexes preds (t, nf) = (t', nf')
     \<Longrightarrow> t' \<le> t + length preds"
proof (induction preds arbitrary: t nf)
  case Nil
  then show ?case by simp
next
  case (Cons p rest)
  obtain t1 nf1 where s: "scan_gold ModeNormal eq gold_list p gold_indexes (t, nf) = (t1, nf1)"
    by (cases "scan_gold ModeNormal eq gold_list p gold_indexes (t, nf)")
  from s have "t1 \<le> t + 1" by (rule scan_gold_normal_le)
  moreover from Cons.prems s have "t' \<le> t1 + length rest"
    by (intro Cons.IH [of t1 nf1]) simp
  ultimately show ?case by simp
qed

lemma count_list_replicate_True: "count_list (replicate n True) True = n"
  by (induction n) simp_all

lemma record_count_mode [simp]:
  "match_mode (fst (RecordMetric_count_instance cls m g p)) = match_mode m"
  by (simp add: RecordMetric_count_instance_def Let_def)

lemma record_count_tp_le_gold:
  assumes "tp m \<le> gold_num m"
  shows "tp (fst (RecordMetric_count_instance cls m g p))
           \<le> gold_num (fst (RecordMetric_count_instance cls m g p))"
proof (cases "match_mode m = ModeSet")
  case True
  with assms show ?thesis by (simp add: RecordMetric_count_instance_def)
next
  case False
  obtain t' nf' where r: "record_loop (match_mode m) (is_equal cls) g [0..<length g] p
                            (tp m, replicate (length g) True) = (t', nf')"
    by (cases "record_loop (match_mode m) (is_equal cls) g [0..<length g] p
                 (tp m, replicate (length g) True)")
  have "set [0..<length g] \<subseteq> {..<length (replicate (length g) True)}"
    by auto
  from record_loop_conserve [OF this r]
  have "t' + count_list nf' True = tp m + length g"
    by (simp add: count_list_replicate_True)
  then have "t' \<le> tp m + length g" by simp
  with assms False r show ?thesis
    by (simp add: RecordMetric_count_instance_def Let_def)
qed

lemma record_count_tp_le_pred:
  assumes "tp m \<le> pred_num m" "match_mode m \<noteq> ModeMultimatch"
  shows "tp (fst (RecordMetric_count_instance cls m g p))
           \<le> pred_num (fst (RecordMetric_count_instance cls m g p))"
proof (cases "match_mode m")
  case ModeSet
  with assms show ?thesis by (simp add: RecordMetric_count_instance_def)
next
  case ModeNormal
  obtain t' nf' where r: "record_loop ModeNormal (is_equal cls) g [0..<length g] p
                            (tp m, replicate (length g) True) = (t', nf')"
    by (cases "record_loop ModeNormal (is_equal cls) g [0..<length g] p
                 (tp m, replicate (length g) True)")
  then have "t' \<le> tp m + length p" by (rule record_loop_normal_le)
  with assms ModeNormal r show ?thesis
    by (simp add: RecordMetric_count_instance_def Let_def)
next
  case ModeMultimatch
  with assms show ?thesis by simp
qed

lemma run_record_tp_le_gold:
  "tp m \<le> gold_num m \<Longrightarrow> tp (run_record cls m calls) \<le> gold_num (run_record cls m calls)"
proof (induction calls arbitrary: m)
  case Nil
  then show ?case by simp
next
  case (Cons c calls)
  obtain g p where c: "c = (g, p)" by (cases c)
  show ?case unfolding c run_record.simps
    by (rule Cons.IH) (rule record_count_tp_le_gold [OF Cons.prems])
qed

lemma run_record_tp_le_pred:
  "tp m \<le> pred_num m \<Longrightarrow> match_mode m \<noteq> ModeMultimatch
     \<Longrightarrow> tp (run_record cls m calls) \<le> pred_num (run_record cls m calls)"
proof (induction calls arbitrary: m)
  case Nil
  then show ?case by simp
next
  case (Cons c calls)
  obtain g p where c: "c = (g, p)" by (cases c)
  show ?case unfolding c run_record.simps
  proof (rule Cons.IH)
    show "tp (fst (RecordMetric_count_instance cls m g p))
            \<le> pred_num (fst (RecordMetric_count_instance cls m g p))"
      using Cons.prems by (rule record_count_tp_le_pred)
    show "match_mode (fst (RecordMetric_count_instance cls m g p)) \<noteq> ModeMultimatch"
      using Cons.prems by simp
  qed
qed

text \<open>
  Claim C1, as amended. After any sequence of \<open>count_instance\<close> calls on a fresh
  accumulator, \<open>tp \<le> min(gold_num, pred_num)\<close> holds in \<open>set\<close> and \<open>normal\<close> mode, for
  \<open>Metric\<close> and for both record metrics. In \<open>multimatch\<close> mode \<open>Metric\<close> keeps
  \<open>tp \<le> pred_num\<close> only (a gold item may match several predictions) and the record
  metrics keep \<open>tp \<le> gold_num\<close> only (a prediction may consume several gold records);
  both bounds hold in every mode.
\<close>

theorem tp_bounded_outside_multimatch:
  "(mode \<noteq> ModeMultimatch \<longrightarrow>
      tp (run_metric (Metric_init mode) calls)
        \<le> min (gold_num (run_metric (Metric_init mode) calls))
              (pred_num (run_metric (Metric_init mode) calls))
      \<and> tp (run_record cls (Metric_init mode) record_calls)
        \<le> min (gold_num (run_record cls (Metric_init mode) record_calls))
              (pred_num (run_record cls (Metric_init mode) record_calls)))
   \<and> tp (run_metric (Metric_init mode) calls)
        \<le> pred_num (run_metric (Metric_init mode) calls)
   \<and> tp (run_record cls (Metric_init mode) record_calls)
        \<le> gold_num (run_record cls (Metric_init mode) record_calls)"
proof -
  have z: "tp (Metric_init mode) \<le> pred_num (Metric_init mode)"
    "tp (Metric_init mode) \<le> gold_num (Metric_init mode)"
    by (simp_all add: Metric_init_def)
  have m: "match_mode (Metric_init mode) = mode"
    by (simp add: Metric_init_def)
  have a: "tp (run_metric (Metric_init mode) calls)
             \<le> pred_num (run_metric (Metric_init mode) calls)"
    using z(1) by (rule run_metric_tp_le_pred)
  have b: "tp (run_record cls (Metric_init mode) record_calls)
             \<le> gold_num (run_record cls (Metric_init mode) record_calls)"
    using z(2) by (rule run_record_tp_le_gold)
  have c: "tp (run_metric (Metric_init mode) calls)
             \<le> gold_num (run_metric (Metric_init mode) calls)"
    if "mode \<noteq> ModeMultimatch"
    using z(2) that by (intro run_metric_tp_le_gold) (simp_all add: m)
  have d: "tp (run_record cls (Metric_init mode) record_calls)
             \<le> pred_num (run_record cls (Metric_init mode) record_calls)"
    if "mode \<noteq> ModeMultimatch"
    using z(1) that by (intro run_record_tp_le_pred) (simp_all add: m)
  show ?thesis using a b c d by simp
qed

theorem tp_bounded_outside_multimatch_witness:
  "ModeNormal \<noteq> ModeMultimatch
   \<and> run_metric (Metric_init ModeNormal)
        [([[''PER'', ''a'']], [[''PER'', ''a''], [''PER'', ''a'']]),
         ([[''ORG'', ''b''], [''ORG'', ''b'']], [[''ORG'', ''b'']])]
       = \<lparr>tp = 2, gold_num = 3, pred_num = 3, match_mode = ModeNormal\<rparr>
   \<and> tp (run_metric (Metric_init ModeNormal)
        [([[''PER'', ''a'']], [[''PER'', ''a''], [''PER'', ''a'']]),
         ([[''ORG'', ''b''], [''ORG'', ''b'']], [[''ORG'', ''b'']])])
       \<le> min (gold_num (run_metric (Metric_init ModeNormal)
        [([[''PER'', ''a'']], [[''PER'', ''a''], [''PER'', ''a'']]),
         ([[''ORG'', ''b''], [''ORG'', ''b'']], [[''ORG'', ''b'']])]))
            (pred_num (run_metric (Metric_init ModeNormal)
        [([[''PER'', ''a'']], [[''PER'', ''a''], [''PER'', ''a'']]),
         ([[''ORG'', ''b''], [''ORG'', ''b'']], [[''ORG'', ''b'']])]))
   \<and> run_record RecordMetric (Metric_init ModeNormal)
        [([\<lparr>type = ''Attack'', spot = ''fired'', asocs = [(''Target'', ''base'')]\<rparr>,
           \<lparr>type = ''Attack'', spot = ''fired'', asocs = [(''Target'', ''base'')]\<rparr>],
          [\<lparr>type = ''Attack'', spot = ''fired'', asocs = [(''Target'', ''base'')]\<rparr>])]
       = \<lparr>tp = 1, gold_num = 2, pred_num = 1, match_mode = ModeNormal\<rparr>
   \<and> tp (run_record RecordMetric (Metric_init ModeNormal)
        [([\<lparr>type = ''Attack'', spot = ''fired'', asocs = [(''Target'', ''base'')]\<rparr>,
           \<lparr>type = ''Attack'', spot = ''fired'', asocs = [(''Target'', ''base'')]\<rparr>],
          [\<lparr>type = ''Attack'', spot = ''fired'', asocs = [(''Target'', ''base'')]\<rparr>])])
       \<le> min (gold_num (run_record RecordMetric (Metric_init ModeNormal)
        [([\<lparr>type = ''Attack'', spot = ''fired'', asocs = [(''Target'', ''base'')]\<rparr>,
           \<lparr>type = ''Attack'', spot = ''fired'', asocs = [(''Target'', ''base'')]\<rparr>],
          [\<lparr>type = ''Attack'', spot = ''fired'', asocs = [(''Target'', ''base'')]\<rparr>])]))
            (pred_num (run_record RecordMetric (Metric_init ModeNormal)
        [([\<lparr>type = ''Attack'', spot = ''fired'', asocs = [(''Target'', ''base'')]\<rparr>,
           \<lparr>type = ''Attack'', spot = ''fired'', asocs = [(''Target'', ''base'')]\<rparr>],
          [\<lparr>type = ''Attack'', spot = ''fired'', asocs = [(''Target'', ''base'')]\<rparr>])]))"
proof -
  have e1: "run_metric (Metric_init ModeNormal)
        [([[''PER'', ''a'']], [[''PER'', ''a''], [''PER'', ''a'']]),
         ([[''ORG'', ''b''], [''ORG'', ''b'']], [[''ORG'', ''b'']])]
       = \<lparr>tp = 2, gold_num = 3, pred_num = 3, match_mode = ModeNormal\<rparr>"
    by (simp add: count_instance_def Metric_init_def)
  have e2: "run_record RecordMetric (Metric_init ModeNormal)
        [([\<lparr>type = ''Attack'', spot = ''fired'', asocs = [(''Target'', ''base'')]\<rparr>,
           \<lparr>type = ''Attack'', spot = ''fired'', asocs = [(''Target'', ''base'')]\<rparr>],
          [\<lparr>type = ''Attack'', spot = ''fired'', asocs = [(''Target'', ''base'')]\<rparr>])]
       = \<lparr>tp = 1, gold_num = 2, pred_num = 1, match_mode = ModeNormal\<rparr>"
    by (simp add: RecordMetric_count_instance_def RecordMetric_is_equal_def Metric_init_def
          upt_rec [of 0] upt_rec [of 1] upt_rec [of 2])
  show ?thesis
    using tp_bounded_outside_multimatch
      [of ModeNormal
          "[([[''PER'', ''a'']], [[''PER'', ''a''], [''PER'', ''a'']]),
            ([[''ORG'', ''b''], [''ORG'', ''b'']], [[''ORG'', ''b'']])]"
          RecordMetric
          "[([\<lparr>type = ''Attack'', spot = ''fired'', asocs = [(''Target'', ''base'')]\<rparr>,
              \<lparr>type = ''Attack'', spot = ''fired'', asocs = [(''Target'', ''base'')]\<rparr>],
             [\<lparr>type = ''Attack'', spot = ''fired'', asocs = [(''Target'', ''base'')]\<rparr>])]"]
      e1 e2
    by simp
qed

text \<open>
  The bound of claim C1 fails in \<open>multimatch\<close> mode: one gold tuple matched by two equal
  predictions gives \<open>tp = 2 > gold_num = 1\<close> in \<open>Metric\<close>, and two equal gold records
  consumed by one prediction give \<open>tp = 2 > pred_num = 1\<close> in \<open>RecordMetric\<close>.
\<close>

theorem tp_bound_multimatch_counterexample:
  "run_metric (Metric_init ModeMultimatch)
        [([[''PER'', ''a'']], [[''PER'', ''a''], [''PER'', ''a'']])]
       = \<lparr>tp = 2, gold_num = 1, pred_num = 2, match_mode = ModeMultimatch\<rparr>
   \<and> \<not> tp (run_metric (Metric_init ModeMultimatch)
             [([[''PER'', ''a'']], [[''PER'', ''a''], [''PER'', ''a'']])])
         \<le> min (gold_num (run_metric (Metric_init ModeMultimatch)
                   [([[''PER'', ''a'']], [[''PER'', ''a''], [''PER'', ''a'']])]))
               (pred_num (run_metric (Metric_init ModeMultimatch)
                   [([[''PER'', ''a'']], [[''PER'', ''a''], [''PER'', ''a'']])]))
   \<and> run_record RecordMetric (Metric_init ModeMultimatch)
        [([\<lparr>type = ''Attack'', spot = ''fired'', asocs = [(''Target'', ''base'')]\<rparr>,
           \<lparr>type = ''Attack'', spot = ''fired'', asocs = [(''Target'', ''base'')]\<rparr>],
          [\<lparr>type = ''Attack'', spot = ''fired'', asocs = [(''Target'', ''base'')]\<rparr>])]
       = \<lparr>tp = 2, gold_num = 2, pred_num = 1, match_mode = ModeMultimatch\<rparr>
   \<and> \<not> tp (run_record RecordMetric (Metric_init ModeMultimatch)
        [([\<lparr>type = ''Attack'', spot = ''fired'', asocs = [(''Target'', ''base'')]\<rparr>,
           \<lparr>type = ''Attack'', spot = ''fired'', asocs = [(''Target'', ''base'')]\<rparr>],
          [\<lparr>type = ''Attack'', spot = ''fired'', asocs = [(''Target'', ''base'')]\<rparr>])])
       \<le> min (gold_num (run_record RecordMetric (Metric_init ModeMultimatch)
        [([\<lparr>type = ''Attack'', spot = ''fired'', asocs = [(''Target'', ''base'')]\<rparr>,
           \<lparr>type = ''Attack'', spot = ''fired'', asocs = [(''Target'', ''base'')]\<rparr>],
          [\<lparr>type = ''Attack'', spot = ''fired'', asocs = [(''Target'', ''base'')]\<rparr>])]))
            (pred_num (run_record RecordMetric (Metric_init ModeMultimatch)
        [([\<lparr>type = ''Attack'', spot = ''fired'', asocs = [(''Target'', ''base'')]\<rparr>,
           \<lparr>type = ''Attack'', spot = ''fired'', asocs = [(''Target'', ''base'')]\<rparr>],
          [\<lparr>type = ''Attack'', spot = ''fired'', asocs = [(''Target'', ''base'')]\<rparr>])]))"
proof -
  have e1: "run_metric (Metric_init ModeMultimatch)
        [([[''PER'', ''a'']], [[''PER'', ''a''], [''PER'', ''a'']])]
       = \<lparr>tp = 2, gold_num = 1, pred_num = 2, match_mode = ModeMultimatch\<rparr>"
    by (simp add: count_instance_def Metric_init_def)
  have e2: "run_record RecordMetric (Metric_init ModeMultimatch)
        [([\<lparr>type = ''Attack'', spot = ''fired'', asocs = [(''Target'', ''base'')]\<rparr>,
           \<lparr>type = ''Attack'', spot = ''fired'', asocs = [(''Target'', ''base'')]\<rparr>],
          [\<lparr>type = ''Attack'', spot = ''fired'', asocs = [(''Target'', ''base'')]\<rparr>])]
       = \<lparr>tp = 2, gold_num = 2, pred_num = 1, match_mode = ModeMultimatch\<rparr>"
    by (simp add: RecordMetric_count_instance_def RecordMetric_is_equal_def Metric_init_def
          upt_rec [of 0] upt_rec [of 1] upt_rec [of 2])
  show ?thesis unfolding e1 e2 by simp
qed

subsection \<open>Strict and boundary view of the relation scorer\<close>

lemma boundary_view_map:
  "boundary_view xs = Inr bs \<Longrightarrow> bs = map (\<lambda>x. [x ! 0, x ! 2, x ! 4]) xs"
  by (induction xs arbitrary: bs)
     (auto simp: boundary_item_def split: sum.splits if_splits)

lemma size_inter_image_mset:
  "size (A \<inter># B) \<le> size (image_mset f A \<inter># image_mset f B)"
proof -
  have "image_mset f (A \<inter># B) \<subseteq># image_mset f A"
    by (rule image_mset_subseteq_mono) simp
  moreover have "image_mset f (A \<inter># B) \<subseteq># image_mset f B"
    by (rule image_mset_subseteq_mono) simp
  ultimately have "image_mset f (A \<inter># B) \<subseteq># image_mset f A \<inter># image_mset f B"
    by simp
  then have "size (image_mset f (A \<inter># B)) \<le> size (image_mset f A \<inter># image_mset f B)"
    by (rule size_mset_mono)
  then show ?thesis by simp
qed

lemma filter_member_map_le:
  "length (filter (\<lambda>p. p \<in> set g) ps)
     \<le> length (filter (\<lambda>p. p \<in> set (map f g)) (map f ps))"
  by (induction ps) auto

lemma match_loop_map_le:
  assumes "mode \<noteq> ModeSet"
  shows "match_loop mode g p 0 \<le> match_loop mode (map f g) (map f p) 0"
proof (cases mode)
  case ModeSet
  with assms show ?thesis by simp
next
  case ModeNormal
  have "size (mset g \<inter># mset p) \<le> size (image_mset f (mset g) \<inter># image_mset f (mset p))"
    by (rule size_inter_image_mset)
  with ModeNormal show ?thesis by (simp add: match_loop_normal)
next
  case ModeMultimatch
  with filter_member_map_le [of g p f] show ?thesis
    by (simp add: match_loop_multimatch)
qed

lemma match_loop_shift: "match_loop mode dup preds t = t + match_loop mode dup preds 0"
proof (induction preds arbitrary: dup t)
  case Nil
  show ?case by simp
next
  case (Cons p rest)
  show ?case
  proof (cases "p \<in> set dup")
    case True
    have "match_loop mode (if mode = ModeNormal then remove1 p dup else dup) rest (t + 1)
            = t + 1 + match_loop mode (if mode = ModeNormal then remove1 p dup else dup) rest 0"
      by (rule Cons.IH)
    moreover
    have "match_loop mode (if mode = ModeNormal then remove1 p dup else dup) rest (0 + 1)
            = 0 + 1 + match_loop mode (if mode = ModeNormal then remove1 p dup else dup) rest 0"
      by (rule Cons.IH)
    ultimately show ?thesis using True by simp
  next
    case False
    then show ?thesis by (simp add: Cons.IH [of dup t])
  qed
qed

lemma call_count_Inr:
  assumes "call_count m g p = Inr m'" "match_mode m \<noteq> ModeSet"
  shows "tp m' = tp m + match_loop (match_mode m) g p 0 \<and> match_mode m' = match_mode m"
proof -
  from assms have "m' = m\<lparr>gold_num := gold_num m + length g,
                          pred_num := pred_num m + length p,
                          tp := match_loop (match_mode m) g p (tp m)\<rparr>"
    by (auto simp: call_count_def count_instance_def Let_def split: if_splits)
  then show ?thesis using match_loop_shift [of "match_mode m" g p "tp m"] by simp
qed

lemma boundary_count_Inr:
  assumes "boundary_count m g p = Inr m'" "match_mode m \<noteq> ModeSet"
  shows "tp m' = tp m + match_loop (match_mode m)
                          (map (\<lambda>x. [x ! 0, x ! 2, x ! 4]) g)
                          (map (\<lambda>x. [x ! 0, x ! 2, x ! 4]) p) 0
         \<and> match_mode m' = match_mode m"
proof -
  from assms(1) obtain bg bp where b: "boundary_view g = Inr bg" "boundary_view p = Inr bp"
    and c: "call_count m bg bp = Inr m'"
    by (auto simp: boundary_count_def split: sum.splits)
  from b have "bg = map (\<lambda>x. [x ! 0, x ! 2, x ! 4]) g" "bp = map (\<lambda>x. [x ! 0, x ! 2, x ! 4]) p"
    by (simp_all add: boundary_view_map)
  with call_count_Inr [OF c assms(2)] show ?thesis by simp
qed

lemma strict_boundary_pair:
  assumes s: "call_count ms g p = Inr ms'" and b: "boundary_count mb g p = Inr mb'"
    and m: "match_mode ms = mode" "match_mode mb = mode" "mode \<noteq> ModeSet"
  shows "tp ms' + tp mb \<le> tp mb' + tp ms \<and> match_mode ms' = mode \<and> match_mode mb' = mode"
proof -
  from call_count_Inr [OF s] m
  have 1: "tp ms' = tp ms + match_loop mode g p 0" "match_mode ms' = mode" by simp_all
  from boundary_count_Inr [OF b] m
  have 2: "tp mb' = tp mb + match_loop mode (map (\<lambda>x. [x ! 0, x ! 2, x ! 4]) g)
                                (map (\<lambda>x. [x ! 0, x ! 2, x ! 4]) p) 0"
    "match_mode mb' = mode" by simp_all
  from match_loop_map_le [OF m(3), of g p "\<lambda>x. [x ! 0, x ! 2, x ! 4]"] 1 2
  show ?thesis by simp
qed

lemma relation_step_increment:
  assumes "relation_step ms (pred, gold) = Inr ms'" "same_mode mode ms" "mode \<noteq> ModeSet"
  shows "tp (strict_offset ms') + tp (boundary_offset ms)
           \<le> tp (boundary_offset ms') + tp (strict_offset ms)
         \<and> tp (strict_string ms') + tp (boundary_string ms)
           \<le> tp (boundary_string ms') + tp (strict_string ms)
         \<and> same_mode mode ms'"
proof -
  from assms(1) obtain so ss bo bs where
    so: "call_count (strict_offset ms) (get_default gold ''offset'') (get_default pred ''offset'') = Inr so"
    and ss: "call_count (strict_string ms) (get_default gold ''string'') (get_default pred ''string'') = Inr ss"
    and bo: "boundary_count (boundary_offset ms) (get_default gold ''offset'') (get_default pred ''offset'') = Inr bo"
    and bs: "boundary_count (boundary_string ms) (get_default gold ''string'') (get_default pred ''string'') = Inr bs"
    and ms': "ms' = \<lparr>strict_offset = so, strict_string = ss,
                     boundary_offset = bo, boundary_string = bs\<rparr>"
    by (auto simp: relation_step_def split: sum.splits)
  from assms(2) have m: "match_mode (strict_offset ms) = mode" "match_mode (strict_string ms) = mode"
    "match_mode (boundary_offset ms) = mode" "match_mode (boundary_string ms) = mode"
    by (simp_all add: same_mode_def)
  from strict_boundary_pair [OF so bo m(1) m(3) assms(3)]
       strict_boundary_pair [OF ss bs m(2) m(4) assms(3)]
  show ?thesis by (simp add: ms' same_mode_def)
qed

lemma relation_loop_total:
  "relation_loop pgs ms = Inr ms' \<Longrightarrow> same_mode mode ms \<Longrightarrow> mode \<noteq> ModeSet
     \<Longrightarrow> tp (strict_offset ms) \<le> tp (boundary_offset ms)
     \<Longrightarrow> tp (strict_string ms) \<le> tp (boundary_string ms)
     \<Longrightarrow> tp (strict_offset ms') \<le> tp (boundary_offset ms')
         \<and> tp (strict_string ms') \<le> tp (boundary_string ms')"
proof (induction pgs arbitrary: ms)
  case Nil
  then show ?case by simp
next
  case (Cons pg rest)
  obtain pred gold where pg: "pg = (pred, gold)" by (cases pg)
  from Cons.prems(1) obtain ms1 where s: "relation_step ms (pred, gold) = Inr ms1"
    and l: "relation_loop rest ms1 = Inr ms'"
    by (auto simp: pg split: sum.splits)
  from relation_step_increment [OF s Cons.prems(2,3)]
  have i: "tp (strict_offset ms1) + tp (boundary_offset ms)
             \<le> tp (boundary_offset ms1) + tp (strict_offset ms)"
    "tp (strict_string ms1) + tp (boundary_string ms)
             \<le> tp (boundary_string ms1) + tp (strict_string ms)"
    "same_mode mode ms1"
    by simp_all
  show ?case
  proof (rule Cons.IH [OF l i(3) Cons.prems(3)])
    show "tp (strict_offset ms1) \<le> tp (boundary_offset ms1)"
      using i(1) Cons.prems(4) by linarith
    show "tp (strict_string ms1) \<le> tp (boundary_string ms1)"
      using i(2) Cons.prems(5) by linarith
  qed
qed

lemmas relation_eval_simps = RelationScorer_metrics_def relation_step_def call_count_def boundary_count_def
  boundary_item_def count_instance_def get_default_def Metric_init_def Let_def


lemma card_inter_set:
  "card (set g \<inter> set p) = length (filter (\<lambda>x. x \<in> set p) (remdups g))"
proof -
  have e: "set g \<inter> set p = set (filter (\<lambda>x. x \<in> set p) (remdups g))"
    by auto
  have "distinct (filter (\<lambda>x. x \<in> set p) (remdups g))"
    by simp
  then have "card (set (filter (\<lambda>x. x \<in> set p) (remdups g)))
         = length (filter (\<lambda>x. x \<in> set p) (remdups g))"
    by (rule distinct_card)
  then show ?thesis unfolding e .
qed

lemma count_instance_set_remdups:
  "match_mode m = ModeSet \<Longrightarrow> count_instance m g p =
     (m\<lparr>gold_num := gold_num m + length (remdups g),
        pred_num := pred_num m + length (remdups p),
        tp := tp m + length (filter (\<lambda>x. x \<in> set p) (remdups g))\<rparr>, None)"
  by (simp only: count_instance_def card_inter_set List.card_set simp_thms if_True)


text \<open>
  Claim C2, as amended. In \<open>normal\<close> and \<open>multimatch\<close> mode, on each axis, an example
  pair that \<open>RelationScorer.eval_instance_list\<close> scores without exception adds to the
  boundary accumulator's \<open>tp\<close> at least what it adds to the strict accumulator's
  (written without subtraction), and at the end of an evaluation that returns the
  boundary \<open>tp\<close> is at least the strict \<open>tp\<close>.
\<close>

theorem boundary_tp_ge_strict_tp:
  "(mode \<noteq> ModeSet \<and> same_mode mode ms \<and> relation_step ms (pred, gold) = Inr ms'
      \<longrightarrow> tp (strict_offset ms') + tp (boundary_offset ms)
             \<le> tp (boundary_offset ms') + tp (strict_offset ms)
          \<and> tp (strict_string ms') + tp (boundary_string ms)
             \<le> tp (boundary_string ms') + tp (strict_string ms))
   \<and> (mode \<noteq> ModeSet
        \<and> RelationScorer_metrics mode gold_instance_list pred_instance_list = Inr final
      \<longrightarrow> tp (strict_offset final) \<le> tp (boundary_offset final)
          \<and> tp (strict_string final) \<le> tp (boundary_string final))"
proof (intro conjI impI)
  assume a: "mode \<noteq> ModeSet \<and> same_mode mode ms \<and> relation_step ms (pred, gold) = Inr ms'"
  then have "relation_step ms (pred, gold) = Inr ms'" "same_mode mode ms" "mode \<noteq> ModeSet"
    by simp_all
  from relation_step_increment [OF this]
  show "tp (strict_offset ms') + tp (boundary_offset ms)
             \<le> tp (boundary_offset ms') + tp (strict_offset ms)"
    and "tp (strict_string ms') + tp (boundary_string ms)
             \<le> tp (boundary_string ms') + tp (strict_string ms)"
    by simp_all
next
  assume a: "mode \<noteq> ModeSet
        \<and> RelationScorer_metrics mode gold_instance_list pred_instance_list = Inr final"
  let ?init = "\<lparr>strict_offset = Metric_init mode, strict_string = Metric_init mode,
                 boundary_offset = Metric_init mode, boundary_string = Metric_init mode\<rparr>"
  from a have l: "relation_loop (zip pred_instance_list gold_instance_list) ?init = Inr final"
    by (simp add: RelationScorer_metrics_def)
  have s: "same_mode mode ?init"
    by (simp add: same_mode_def Metric_init_def)
  from a have n: "mode \<noteq> ModeSet" by simp
  have z: "tp (strict_offset ?init) \<le> tp (boundary_offset ?init)"
    "tp (strict_string ?init) \<le> tp (boundary_string ?init)"
    by (simp_all add: Metric_init_def)
  from relation_loop_total [OF l s n z]
  show "tp (strict_offset final) \<le> tp (boundary_offset final)"
    and "tp (strict_string final) \<le> tp (boundary_string final)"
    by simp_all
qed


theorem boundary_tp_ge_strict_tp_witness:
  "ModeNormal \<noteq> ModeSet
   \<and> same_mode ModeNormal
        \<lparr>strict_offset = Metric_init ModeNormal, strict_string = Metric_init ModeNormal,
         boundary_offset = Metric_init ModeNormal, boundary_string = Metric_init ModeNormal\<rparr>
   \<and> relation_step
        \<lparr>strict_offset = Metric_init ModeNormal, strict_string = Metric_init ModeNormal,
         boundary_offset = Metric_init ModeNormal, boundary_string = Metric_init ModeNormal\<rparr>
        (swapped_pred, swapped_gold) =
       Inr \<lparr>strict_offset = \<lparr>tp = 0, gold_num = 1, pred_num = 1, match_mode = ModeNormal\<rparr>,
            strict_string = \<lparr>tp = 0, gold_num = 1, pred_num = 1, match_mode = ModeNormal\<rparr>,
            boundary_offset = \<lparr>tp = 1, gold_num = 1, pred_num = 1, match_mode = ModeNormal\<rparr>,
            boundary_string = \<lparr>tp = 1, gold_num = 1, pred_num = 1, match_mode = ModeNormal\<rparr>\<rparr>
   \<and> RelationScorer_metrics ModeNormal [swapped_gold] [swapped_pred] =
       Inr \<lparr>strict_offset = \<lparr>tp = 0, gold_num = 1, pred_num = 1, match_mode = ModeNormal\<rparr>,
            strict_string = \<lparr>tp = 0, gold_num = 1, pred_num = 1, match_mode = ModeNormal\<rparr>,
            boundary_offset = \<lparr>tp = 1, gold_num = 1, pred_num = 1, match_mode = ModeNormal\<rparr>,
            boundary_string = \<lparr>tp = 1, gold_num = 1, pred_num = 1, match_mode = ModeNormal\<rparr>\<rparr>
   \<and> (0::nat) \<le> 1"
proof -
  let ?init = "\<lparr>strict_offset = Metric_init ModeNormal, strict_string = Metric_init ModeNormal,
         boundary_offset = Metric_init ModeNormal, boundary_string = Metric_init ModeNormal\<rparr>"
  let ?res = "\<lparr>strict_offset = \<lparr>tp = 0, gold_num = 1, pred_num = 1, match_mode = ModeNormal\<rparr>,
            strict_string = \<lparr>tp = 0, gold_num = 1, pred_num = 1, match_mode = ModeNormal\<rparr>,
            boundary_offset = \<lparr>tp = 1, gold_num = 1, pred_num = 1, match_mode = ModeNormal\<rparr>,
            boundary_string = \<lparr>tp = 1, gold_num = 1, pred_num = 1, match_mode = ModeNormal\<rparr>\<rparr>"
  have h1: "same_mode ModeNormal ?init"
    by (simp add: same_mode_def Metric_init_def)
  have h2: "relation_step ?init (swapped_pred, swapped_gold) = Inr ?res"
    by (simp add: relation_eval_simps swapped_gold_def swapped_pred_def)
  have h3: "RelationScorer_metrics ModeNormal [swapped_gold] [swapped_pred] = Inr ?res"
    by (simp add: relation_eval_simps swapped_gold_def swapped_pred_def)
  show ?thesis
    using boundary_tp_ge_strict_tp
      [of ModeNormal ?init swapped_pred swapped_gold ?res "[swapped_gold]" "[swapped_pred]" ?res] h1 h2 h3
    by simp
qed

text \<open>
  In \<open>set\<close> mode the inequality of claim C2 fails: the boundary view merges the two
  relations of \<open>same_spans\<close> into one tuple, so that scoring \<open>same_spans\<close> against
  itself gives strict \<open>tp = 2\<close> and boundary \<open>tp = 1\<close> on both axes.
\<close>

theorem boundary_tp_set_mode_counterexample:
  "RelationScorer_metrics ModeSet [same_spans] [same_spans] =
     Inr \<lparr>strict_offset = \<lparr>tp = 2, gold_num = 2, pred_num = 2, match_mode = ModeSet\<rparr>,
          strict_string = \<lparr>tp = 2, gold_num = 2, pred_num = 2, match_mode = ModeSet\<rparr>,
          boundary_offset = \<lparr>tp = 1, gold_num = 1, pred_num = 1, match_mode = ModeSet\<rparr>,
          boundary_string = \<lparr>tp = 1, gold_num = 1, pred_num = 1, match_mode = ModeSet\<rparr>\<rparr>
   \<and> \<not> tp (strict_offset (projr (RelationScorer_metrics ModeSet [same_spans] [same_spans])))
         \<le> tp (boundary_offset (projr (RelationScorer_metrics ModeSet [same_spans] [same_spans])))
   \<and> \<not> tp (strict_string (projr (RelationScorer_metrics ModeSet [same_spans] [same_spans])))
         \<le> tp (boundary_string (projr (RelationScorer_metrics ModeSet [same_spans] [same_spans])))"
proof -
  have e: "RelationScorer_metrics ModeSet [same_spans] [same_spans] =
     Inr \<lparr>strict_offset = \<lparr>tp = 2, gold_num = 2, pred_num = 2, match_mode = ModeSet\<rparr>,
          strict_string = \<lparr>tp = 2, gold_num = 2, pred_num = 2, match_mode = ModeSet\<rparr>,
          boundary_offset = \<lparr>tp = 1, gold_num = 1, pred_num = 1, match_mode = ModeSet\<rparr>,
          boundary_string = \<lparr>tp = 1, gold_num = 1, pred_num = 1, match_mode = ModeSet\<rparr>\<rparr>"
    by (simp add: RelationScorer_metrics_def relation_step_def call_count_def
          boundary_count_def boundary_item_def count_instance_set_remdups get_default_def
          Metric_init_def same_spans_def)
  show ?thesis unfolding e by simp
qed

subsection \<open>Structural equality and matching of records\<close>

lemma roles_loop_zip:
  "length xs = length ys \<Longrightarrow> roles_loop (zip xs ys) \<longleftrightarrow> xs = ys"
  by (induction xs ys rule: list_induct2) auto

lemma RecordMetric_is_equal_iff:
  "RecordMetric_is_equal gold pred \<longleftrightarrow>
     type gold = type pred \<and> spot gold = spot pred
     \<and> length (asocs gold) = length (asocs pred)
     \<and> sort (asocs gold) = sort (asocs pred)"
  by (auto simp: RecordMetric_is_equal_def roles_loop_zip)

lemma OrderedRecordMetric_is_equal_iff:
  "OrderedRecordMetric_is_equal gold pred \<longleftrightarrow>
     type gold = type pred \<and> spot gold = spot pred
     \<and> length (asocs gold) = length (asocs pred)
     \<and> asocs gold = asocs pred"
  by (auto simp: OrderedRecordMetric_is_equal_def roles_loop_zip)

lemma scan_gold_normal_find:
  "scan_gold ModeNormal eq gold_list pred gold_indexes (t, nf) =
     (case find (\<lambda>i. nf ! i \<and> eq (gold_list ! i) pred) gold_indexes of
        None \<Rightarrow> (t, nf)
      | Some i \<Rightarrow> (t + 1, nf[i := False]))"
  by (induction gold_indexes) simp_all

lemma scan_gold_multimatch_gen:
  "distinct gold_indexes \<Longrightarrow> set gold_indexes \<subseteq> {..<length nf} \<Longrightarrow>
   scan_gold ModeMultimatch eq gold_list pred gold_indexes (t, nf) =
     (t + length (filter (\<lambda>i. nf ! i \<and> eq (gold_list ! i) pred) gold_indexes),
      map (\<lambda>j. nf ! j \<and> \<not> (j \<in> set gold_indexes \<and> eq (gold_list ! j) pred))
        [0..<length nf])"
proof (induction gold_indexes arbitrary: t nf)
  case Nil
  show ?case by (simp add: map_nth)
next
  case (Cons i rest)
  from Cons.prems have d: "distinct rest" "i \<notin> set rest"
    and r: "set rest \<subseteq> {..<length nf}" and i: "i < length nf"
    by simp_all
  show ?case
  proof (cases "nf ! i \<and> eq (gold_list ! i) pred")
    case True
    have r': "set rest \<subseteq> {..<length (nf[i := False])}" using r by simp
    have f: "filter (\<lambda>j. nf[i := False] ! j \<and> eq (gold_list ! j) pred) rest
               = filter (\<lambda>j. nf ! j \<and> eq (gold_list ! j) pred) rest"
    proof (rule filter_cong [OF refl])
      fix x assume "x \<in> set rest"
      with d(2) have "i \<noteq> x" by auto
      then show "(nf[i := False] ! x \<and> eq (gold_list ! x) pred)
                   = (nf ! x \<and> eq (gold_list ! x) pred)"
        by simp
    qed
    have m: "map (\<lambda>j. nf[i := False] ! j \<and> \<not> (j \<in> set rest \<and> eq (gold_list ! j) pred))
               [0..<length nf]
             = map (\<lambda>j. nf ! j \<and> \<not> (j \<in> set (i # rest) \<and> eq (gold_list ! j) pred))
               [0..<length nf]"
      using True i by (intro map_cong) (auto simp: nth_list_update)
    from True have s1: "scan_gold ModeMultimatch eq gold_list pred (i # rest) (t, nf)
            = scan_gold ModeMultimatch eq gold_list pred rest (t + 1, nf[i := False])"
      by simp
    have s2: "scan_gold ModeMultimatch eq gold_list pred rest (t + 1, nf[i := False])
        = (t + 1 + length (filter (\<lambda>j. nf[i := False] ! j \<and> eq (gold_list ! j) pred) rest),
        map (\<lambda>j. nf[i := False] ! j \<and> \<not> (j \<in> set rest \<and> eq (gold_list ! j) pred))
          [0..<length (nf[i := False])])"
      by (rule Cons.IH [OF d(1) r'])
    have len: "length (filter (\<lambda>j. nf ! j \<and> eq (gold_list ! j) pred) (i # rest))
                 = 1 + length (filter (\<lambda>j. nf ! j \<and> eq (gold_list ! j) pred) rest)"
      using True by simp
    show ?thesis unfolding s1 s2 length_list_update f m len by simp
  next
    case False
    have m: "map (\<lambda>j. nf ! j \<and> \<not> (j \<in> set rest \<and> eq (gold_list ! j) pred)) [0..<length nf]
             = map (\<lambda>j. nf ! j \<and> \<not> (j \<in> set (i # rest) \<and> eq (gold_list ! j) pred))
               [0..<length nf]"
      using False by (intro map_cong) auto
    from False have s1: "scan_gold ModeMultimatch eq gold_list pred (i # rest) (t, nf)
            = scan_gold ModeMultimatch eq gold_list pred rest (t, nf)"
      by auto
    have s2: "scan_gold ModeMultimatch eq gold_list pred rest (t, nf)
        = (t + length (filter (\<lambda>j. nf ! j \<and> eq (gold_list ! j) pred) rest),
        map (\<lambda>j. nf ! j \<and> \<not> (j \<in> set rest \<and> eq (gold_list ! j) pred)) [0..<length nf])"
      by (rule Cons.IH [OF d(1) r])
    have len: "length (filter (\<lambda>j. nf ! j \<and> eq (gold_list ! j) pred) (i # rest))
                 = length (filter (\<lambda>j. nf ! j \<and> eq (gold_list ! j) pred) rest)"
      using False by simp
    show ?thesis unfolding s1 s2 m len by (rule refl)
  qed
qed

lemma scan_gold_multimatch_all:
  assumes "length nf = length gold_list"
  shows "scan_gold ModeMultimatch eq gold_list pred [0..<length gold_list] (t, nf) =
     (t + length (filter (\<lambda>i. nf ! i \<and> eq (gold_list ! i) pred) [0..<length gold_list]),
      map (\<lambda>i. nf ! i \<and> \<not> eq (gold_list ! i) pred) [0..<length gold_list])"
proof -
  have "scan_gold ModeMultimatch eq gold_list pred [0..<length gold_list] (t, nf) =
     (t + length (filter (\<lambda>i. nf ! i \<and> eq (gold_list ! i) pred) [0..<length gold_list]),
      map (\<lambda>j. nf ! j \<and> \<not> (j \<in> set [0..<length gold_list] \<and> eq (gold_list ! j) pred))
        [0..<length nf])"
    by (rule scan_gold_multimatch_gen) (auto simp: assms)
  moreover have "map (\<lambda>j. nf ! j \<and> \<not> (j \<in> set [0..<length gold_list] \<and> eq (gold_list ! j) pred))
        [0..<length nf] = map (\<lambda>i. nf ! i \<and> \<not> eq (gold_list ! i) pred) [0..<length gold_list]"
    unfolding assms by (intro map_cong) auto
  ultimately show ?thesis by simp
qed

lemma record_loop_fold:
  "record_loop mode eq gold_list gold_indexes pred_list s =
     fold (\<lambda>pred. scan_gold mode eq gold_list pred gold_indexes) pred_list s"
  by (induction pred_list arbitrary: s) simp_all

text \<open>
  Claim C7. \<open>RecordMetric.is_equal\<close> holds of two records iff their \<open>type\<close> fields are
  equal, their \<open>spot\<close> fields are equal, their \<open>asocs\<close> have the same length and the
  sorted \<open>asocs\<close> agree position by position; \<open>OrderedRecordMetric.is_equal\<close> is the same
  with the \<open>asocs\<close> in their original order. For one prediction the scan over the gold
  records, in \<open>normal\<close> mode, finds the first gold index that is still unconsumed and
  structurally equal, adds 1 to \<open>tp\<close>, consumes that index and stops; in \<open>multimatch\<close>
  mode it goes on, so that every unconsumed equal gold record is consumed and counted.
  Outside \<open>set\<close> mode \<open>count_instance\<close> adds the raw lengths to the counts and runs this
  scan for each prediction in order, starting from all flags unconsumed.
\<close>

theorem record_equality_and_matching:
  "(is_equal RecordMetric gold pred \<longleftrightarrow>
      type gold = type pred \<and> spot gold = spot pred
      \<and> length (asocs gold) = length (asocs pred)
      \<and> (\<forall>i < length (asocs gold). sort (asocs gold) ! i = sort (asocs pred) ! i))
   \<and> (is_equal OrderedRecordMetric gold pred \<longleftrightarrow>
      type gold = type pred \<and> spot gold = spot pred
      \<and> length (asocs gold) = length (asocs pred)
      \<and> (\<forall>i < length (asocs gold). asocs gold ! i = asocs pred ! i))
   \<and> scan_gold ModeNormal eq gold_list p [0..<length gold_list] (t, nf) =
       (case find (\<lambda>i. nf ! i \<and> eq (gold_list ! i) p) [0..<length gold_list] of
          None \<Rightarrow> (t, nf)
        | Some i \<Rightarrow> (t + 1, nf[i := False]))
   \<and> (length nf = length gold_list \<longrightarrow>
       scan_gold ModeMultimatch eq gold_list p [0..<length gold_list] (t, nf) =
         (t + length (filter (\<lambda>i. nf ! i \<and> eq (gold_list ! i) p) [0..<length gold_list]),
          map (\<lambda>i. nf ! i \<and> \<not> eq (gold_list ! i) p) [0..<length gold_list]))
   \<and> (match_mode m \<noteq> ModeSet \<longrightarrow>
       RecordMetric_count_instance cls m gold_records pred_records =
         (m\<lparr>gold_num := gold_num m + length gold_records,
            pred_num := pred_num m + length pred_records,
            tp := fst (fold (\<lambda>pred. scan_gold (match_mode m) (is_equal cls) gold_records pred
                                      [0..<length gold_records])
                         pred_records (tp m, replicate (length gold_records) True))\<rparr>, None))"
proof (intro conjI impI)
  show "is_equal RecordMetric gold pred \<longleftrightarrow>
      type gold = type pred \<and> spot gold = spot pred
      \<and> length (asocs gold) = length (asocs pred)
      \<and> (\<forall>i < length (asocs gold). sort (asocs gold) ! i = sort (asocs pred) ! i)"
    by (auto simp: RecordMetric_is_equal_iff list_eq_iff_nth_eq)
  show "is_equal OrderedRecordMetric gold pred \<longleftrightarrow>
      type gold = type pred \<and> spot gold = spot pred
      \<and> length (asocs gold) = length (asocs pred)
      \<and> (\<forall>i < length (asocs gold). asocs gold ! i = asocs pred ! i)"
    by (auto simp: OrderedRecordMetric_is_equal_iff list_eq_iff_nth_eq)
  show "scan_gold ModeNormal eq gold_list p [0..<length gold_list] (t, nf) =
       (case find (\<lambda>i. nf ! i \<and> eq (gold_list ! i) p) [0..<length gold_list] of
          None \<Rightarrow> (t, nf)
        | Some i \<Rightarrow> (t + 1, nf[i := False]))"
    by (rule scan_gold_normal_find)
  show "scan_gold ModeMultimatch eq gold_list p [0..<length gold_list] (t, nf) =
         (t + length (filter (\<lambda>i. nf ! i \<and> eq (gold_list ! i) p) [0..<length gold_list]),
          map (\<lambda>i. nf ! i \<and> \<not> eq (gold_list ! i) p) [0..<length gold_list])"
    if "length nf = length gold_list"
    using that by (rule scan_gold_multimatch_all)
  show "RecordMetric_count_instance cls m gold_records pred_records =
         (m\<lparr>gold_num := gold_num m + length gold_records,
            pred_num := pred_num m + length pred_records,
            tp := fst (fold (\<lambda>pred. scan_gold (match_mode m) (is_equal cls) gold_records pred
                                      [0..<length gold_records])
                         pred_records (tp m, replicate (length gold_records) True))\<rparr>, None)"
    if "match_mode m \<noteq> ModeSet"
    using that by (simp add: RecordMetric_count_instance_def Let_def record_loop_fold)
qed

lemmas record_eval_simps = RecordMetric_count_instance_def RecordMetric_is_equal_def
  OrderedRecordMetric_is_equal_def Metric_init_def attack_ab_def attack_ba_def Let_def
  upt_rec [of 0] upt_rec [of 1] upt_rec [of 2]

theorem record_equality_and_matching_witness:
  "is_equal RecordMetric attack_ab attack_ba
   \<and> \<not> is_equal OrderedRecordMetric attack_ab attack_ba
   \<and> sort (asocs attack_ab) ! 0 = sort (asocs attack_ba) ! 0
   \<and> sort (asocs attack_ab) ! 1 = sort (asocs attack_ba) ! 1
   \<and> scan_gold ModeNormal (is_equal RecordMetric) [attack_ab, attack_ab] attack_ba
        [0..<length [attack_ab, attack_ab]] (0, [True, True]) = (1, [False, True])
   \<and> length [True, True] = length [attack_ab, attack_ab]
   \<and> scan_gold ModeMultimatch (is_equal RecordMetric) [attack_ab, attack_ab] attack_ba
        [0..<length [attack_ab, attack_ab]] (0, [True, True]) = (2, [False, False])
   \<and> match_mode (Metric_init ModeNormal) \<noteq> ModeSet
   \<and> RecordMetric_count_instance RecordMetric (Metric_init ModeNormal)
        [attack_ab, attack_ab] [attack_ba, attack_ba, attack_ba]
       = (\<lparr>tp = 2, gold_num = 2, pred_num = 3, match_mode = ModeNormal\<rparr>, None)
   \<and> RecordMetric_count_instance OrderedRecordMetric (Metric_init ModeNormal)
        [attack_ab, attack_ab] [attack_ba, attack_ab]
       = (\<lparr>tp = 1, gold_num = 2, pred_num = 2, match_mode = ModeNormal\<rparr>, None)"
proof -
  have h1: "length (asocs attack_ab) = length (asocs attack_ba)"
    "type attack_ab = type attack_ba" "spot attack_ab = spot attack_ba"
    "sort (asocs attack_ab) = sort (asocs attack_ba)" "asocs attack_ab \<noteq> asocs attack_ba"
    by (simp_all add: attack_ab_def attack_ba_def)
  have h2: "length [True, True] = length [attack_ab, attack_ab]"
    by simp
  have h3: "match_mode (Metric_init ModeNormal) \<noteq> ModeSet"
    by (simp add: Metric_init_def)
  have e1: "is_equal RecordMetric attack_ab attack_ba"
    "\<not> is_equal OrderedRecordMetric attack_ab attack_ba"
    "is_equal OrderedRecordMetric attack_ab attack_ab"
    by (simp_all add: record_eval_simps)
  note t = record_equality_and_matching
      [of attack_ab attack_ba "is_equal RecordMetric" "[attack_ab, attack_ab]" attack_ba 0
          "[True, True]" "Metric_init ModeNormal" RecordMetric "[attack_ab, attack_ab]"
          "[attack_ba, attack_ba, attack_ba]"]
  have q: "\<forall>i < length (asocs attack_ab). sort (asocs attack_ab) ! i = sort (asocs attack_ba) ! i"
    using t e1(1) by blast
  have l: "length (asocs attack_ab) = 2"
    by (simp add: attack_ab_def)
  have c1: "sort (asocs attack_ab) ! 0 = sort (asocs attack_ba) ! 0"
    "sort (asocs attack_ab) ! 1 = sort (asocs attack_ba) ! 1"
    using q l by simp_all
  have c2: "scan_gold ModeNormal (is_equal RecordMetric) [attack_ab, attack_ab] attack_ba
        [0..<length [attack_ab, attack_ab]] (0, [True, True]) = (1, [False, True])"
    by (simp add: record_eval_simps)
  have c3: "scan_gold ModeMultimatch (is_equal RecordMetric) [attack_ab, attack_ab] attack_ba
        [0..<length [attack_ab, attack_ab]] (0, [True, True]) = (2, [False, False])"
    by (simp add: record_eval_simps)
  have c4: "RecordMetric_count_instance RecordMetric (Metric_init ModeNormal)
        [attack_ab, attack_ab] [attack_ba, attack_ba, attack_ba]
       = (\<lparr>tp = 2, gold_num = 2, pred_num = 3, match_mode = ModeNormal\<rparr>, None)"
    by (simp add: record_eval_simps)
  have c5: "RecordMetric_count_instance OrderedRecordMetric (Metric_init ModeNormal)
        [attack_ab, attack_ab] [attack_ba, attack_ab]
       = (\<lparr>tp = 1, gold_num = 2, pred_num = 2, match_mode = ModeNormal\<rparr>, None)"
    by (simp add: record_eval_simps)
  show ?thesis using e1 c1 c2 c3 c4 c5 h2 h3 by simp
qed

subsection \<open>The argument lists are not modified\<close>

lemma match_loop_heap_frame:
  "take dup_ref (snd (match_loop_heap mode dup_ref pred_ref i t h)) = take dup_ref h"
proof (induction mode dup_ref pred_ref i t h rule: match_loop_heap.induct)
  case (1 mode dup_ref pred_ref i t h)
  show ?case
  proof (cases "i < length (items_of (h ! pred_ref))")
    case False
    then show ?thesis by (subst match_loop_heap.simps) simp
  next
    case True
    show ?thesis
    proof (cases "items_of (h ! pred_ref) ! i \<in> set (items_of (h ! dup_ref))")
      case False
      with True "1.IH"(2) show ?thesis by (subst match_loop_heap.simps) simp
    next
      case m: True
      let ?h' = "if mode = ModeNormal
                 then h[dup_ref := Items (remove1 (items_of (h ! pred_ref) ! i)
                                            (items_of (h ! dup_ref)))]
                 else h"
      have "take dup_ref (snd (match_loop_heap mode dup_ref pred_ref (i + 1) (t + 1) ?h'))
              = take dup_ref ?h'"
        using True m by (rule "1.IH"(1))
      also have "\<dots> = take dup_ref h" by simp
      finally show ?thesis using True m by (subst match_loop_heap.simps) simp
    qed
  qed
qed

lemma match_loop_heap_pure:
  "dup_ref \<noteq> pred_ref \<Longrightarrow> dup_ref < length h \<Longrightarrow>
   fst (match_loop_heap mode dup_ref pred_ref i t h)
     = match_loop mode (items_of (h ! dup_ref)) (drop i (items_of (h ! pred_ref))) t"
proof (induction mode dup_ref pred_ref i t h rule: match_loop_heap.induct)
  case (1 mode dup_ref pred_ref i t h)
  show ?case
  proof (cases "i < length (items_of (h ! pred_ref))")
    case False
    then show ?thesis by (subst match_loop_heap.simps) simp
  next
    case True
    then have d: "drop i (items_of (h ! pred_ref))
                    = items_of (h ! pred_ref) ! i # drop (Suc i) (items_of (h ! pred_ref))"
      by (simp add: Cons_nth_drop_Suc)
    show ?thesis
    proof (cases "items_of (h ! pred_ref) ! i \<in> set (items_of (h ! dup_ref))")
      case False
      have "fst (match_loop_heap mode dup_ref pred_ref (i + 1) t h)
              = match_loop mode (items_of (h ! dup_ref))
                  (drop (i + 1) (items_of (h ! pred_ref))) t"
        using True False "1.prems" by (rule "1.IH"(2))
      with True False show ?thesis
        by (subst match_loop_heap.simps) (simp add: d)
    next
      case m: True
      let ?p = "items_of (h ! pred_ref) ! i"
      let ?h' = "if mode = ModeNormal
                 then h[dup_ref := Items (remove1 ?p (items_of (h ! dup_ref)))]
                 else h"
      have l: "dup_ref < length ?h'" using "1.prems"(2) by simp
      have p: "?h' ! pred_ref = h ! pred_ref" using "1.prems"(1) by simp
      have q: "items_of (?h' ! dup_ref)
                 = (if mode = ModeNormal then remove1 ?p (items_of (h ! dup_ref))
                    else items_of (h ! dup_ref))"
        using "1.prems"(2) by simp
      have "fst (match_loop_heap mode dup_ref pred_ref (i + 1) (t + 1) ?h')
              = match_loop mode (items_of (?h' ! dup_ref))
                  (drop (i + 1) (items_of (?h' ! pred_ref))) (t + 1)"
        using True m "1.prems"(1) l by (rule "1.IH"(1))
      then have "fst (match_loop_heap mode dup_ref pred_ref (i + 1) (t + 1) ?h')
              = match_loop mode
                  (if mode = ModeNormal then remove1 ?p (items_of (h ! dup_ref))
                   else items_of (h ! dup_ref))
                  (drop (Suc i) (items_of (h ! pred_ref))) (t + 1)"
        by (simp only: p q Suc_eq_plus1)
      with True m show ?thesis
        by (subst match_loop_heap.simps) (simp add: d)
    qed
  qed
qed

lemma count_instance_heap_frame:
  "take (length h) (snd (count_instance_heap m gold_ref pred_ref h)) = h"
proof -
  have "take (length h) (snd (match_loop_heap mode (length h) pred_ref 0 t (h @ [v]))) = h"
    for mode t v
    using match_loop_heap_frame [of "length h" mode pred_ref 0 t "h @ [v]"] by simp
  then show ?thesis
    by (simp add: count_instance_heap_def alloc_def Let_def case_prod_beta)
qed

lemma count_instance_heap_pure:
  assumes "gold_ref < length h" "pred_ref < length h"
  shows "fst (count_instance_heap m gold_ref pred_ref h)
           = count_instance m (items_of (h ! gold_ref)) (items_of (h ! pred_ref))"
proof -
  have "fst (match_loop_heap mode (length h) pred_ref 0 t (h @ [Items g]))
          = match_loop mode g (items_of (h ! pred_ref)) t" for mode t g
    using match_loop_heap_pure [of "length h" pred_ref "h @ [Items g]" mode 0 t] assms(2)
    by (simp add: nth_append)
  then show ?thesis
    by (simp add: count_instance_heap_def count_instance_def alloc_def Let_def
          case_prod_beta)
qed

lemma scan_gold_heap_frame:
  "take nf_ref (snd (scan_gold_heap mode eq gold_ref pred gold_indexes nf_ref t h))
     = take nf_ref h"
proof (induction gold_indexes arbitrary: t h)
  case Nil
  show ?case by simp
next
  case (Cons gi rest)
  let ?h' = "h[nf_ref := Flags ((flags_of (h ! nf_ref))[gi := False])]"
  have "take nf_ref (snd (scan_gold_heap mode eq gold_ref pred rest nf_ref (t + 1) ?h'))
          = take nf_ref ?h'"
    by (rule Cons.IH)
  also have "\<dots> = take nf_ref h" by simp
  finally show ?case using Cons.IH [of t h] by simp
qed

lemma record_loop_heap_frame:
  "take nf_ref (snd (record_loop_heap mode eq gold_ref pred_ref gold_indexes nf_ref i t h))
     = take nf_ref h"
proof (induction mode eq gold_ref pred_ref gold_indexes nf_ref i t h
        rule: record_loop_heap.induct)
  case (1 mode eq gold_ref pred_ref gold_indexes nf_ref i t h)
  show ?case
  proof (cases "i < length (items_of (h ! pred_ref))")
    case False
    then show ?thesis by (subst record_loop_heap.simps) simp
  next
    case True
    let ?s = "scan_gold_heap mode eq gold_ref (items_of (h ! pred_ref) ! i)
                gold_indexes nf_ref t h"
    have "take nf_ref (snd (record_loop_heap mode eq gold_ref pred_ref gold_indexes nf_ref
                              (i + 1) (fst ?s) (snd ?s)))
            = take nf_ref (snd ?s)"
      using True by (rule "1.IH")
    also have "\<dots> = take nf_ref h" by (rule scan_gold_heap_frame)
    finally show ?thesis using True by (subst record_loop_heap.simps) simp
  qed
qed

lemma scan_gold_heap_pure:
  "nf_ref \<noteq> gold_ref \<Longrightarrow> nf_ref < length h \<Longrightarrow> h ! nf_ref = Flags nf \<Longrightarrow>
   scan_gold_heap mode eq gold_ref pred gold_indexes nf_ref t h
     = (fst (scan_gold mode eq (items_of (h ! gold_ref)) pred gold_indexes (t, nf)),
        h[nf_ref := Flags (snd (scan_gold mode eq (items_of (h ! gold_ref)) pred
                                  gold_indexes (t, nf)))])"
proof (induction gold_indexes arbitrary: t nf h)
  case Nil
  from Nil(3) have "h[nf_ref := Flags nf] = h"
    by (metis list_update_id)
  then show ?case by simp
next
  case (Cons gi rest)
  let ?h' = "h[nf_ref := Flags (nf[gi := False])]"
  have a: "nf_ref < length ?h'" "?h' ! nf_ref = Flags (nf[gi := False])"
    "?h' ! gold_ref = h ! gold_ref"
    using Cons.prems by simp_all
  have u: "?h'[nf_ref := X] = h[nf_ref := X]" for X
    by simp
  have 1: "scan_gold_heap mode eq gold_ref pred rest nf_ref (t + 1) ?h'
     = (fst (scan_gold mode eq (items_of (h ! gold_ref)) pred rest (t + 1, nf[gi := False])),
        h[nf_ref := Flags (snd (scan_gold mode eq (items_of (h ! gold_ref)) pred
                                  rest (t + 1, nf[gi := False])))])"
    using Cons.IH [OF Cons.prems(1) a(1) a(2), of "t + 1"] by (simp only: a(3) u)
  have 2: "scan_gold_heap mode eq gold_ref pred rest nf_ref t h
     = (fst (scan_gold mode eq (items_of (h ! gold_ref)) pred rest (t, nf)),
        h[nf_ref := Flags (snd (scan_gold mode eq (items_of (h ! gold_ref)) pred
                                  rest (t, nf)))])"
    by (rule Cons.IH [OF Cons.prems])
  show ?case using 1 2 Cons.prems(3) by simp
qed

lemma record_loop_heap_pure:
  "nf_ref \<noteq> gold_ref \<Longrightarrow> nf_ref \<noteq> pred_ref \<Longrightarrow> nf_ref < length h
   \<Longrightarrow> h ! nf_ref = Flags (flags_of (h ! nf_ref)) \<Longrightarrow>
   fst (record_loop_heap mode eq gold_ref pred_ref gold_indexes nf_ref i t h)
     = fst (record_loop mode eq (items_of (h ! gold_ref)) gold_indexes
              (drop i (items_of (h ! pred_ref))) (t, flags_of (h ! nf_ref)))"
proof (induction mode eq gold_ref pred_ref gold_indexes nf_ref i t h
        rule: record_loop_heap.induct)
  case (1 mode eq gold_ref pred_ref gold_indexes nf_ref i t h)
  show ?case
  proof (cases "i < length (items_of (h ! pred_ref))")
    case False
    then show ?thesis by (subst record_loop_heap.simps) simp
  next
    case True
    then have d: "drop i (items_of (h ! pred_ref))
                    = items_of (h ! pred_ref) ! i # drop (Suc i) (items_of (h ! pred_ref))"
      by (simp add: Cons_nth_drop_Suc)
    let ?p = "items_of (h ! pred_ref) ! i"
    let ?r = "scan_gold mode eq (items_of (h ! gold_ref)) ?p gold_indexes
                (t, flags_of (h ! nf_ref))"
    let ?s = "scan_gold_heap mode eq gold_ref ?p gold_indexes nf_ref t h"
    have s: "?s = (fst ?r, h[nf_ref := Flags (snd ?r)])"
      using "1.prems"(1,3,4) by (rule scan_gold_heap_pure)
    have a: "nf_ref < length (snd ?s)"
      "snd ?s ! nf_ref = Flags (flags_of (snd ?s ! nf_ref))"
      "snd ?s ! gold_ref = h ! gold_ref" "snd ?s ! pred_ref = h ! pred_ref"
      "flags_of (snd ?s ! nf_ref) = snd ?r" "fst ?s = fst ?r"
      using "1.prems" by (simp_all add: s)
    have "fst (record_loop_heap mode eq gold_ref pred_ref gold_indexes nf_ref (i + 1)
                 (fst ?s) (snd ?s))
            = fst (record_loop mode eq (items_of (snd ?s ! gold_ref)) gold_indexes
                     (drop (i + 1) (items_of (snd ?s ! pred_ref)))
                     (fst ?s, flags_of (snd ?s ! nf_ref)))"
      using True "1.prems"(1,2) a(1,2) by (rule "1.IH")
    then have "fst (record_loop_heap mode eq gold_ref pred_ref gold_indexes nf_ref (i + 1)
                 (fst ?s) (snd ?s))
            = fst (record_loop mode eq (items_of (h ! gold_ref)) gold_indexes
                     (drop (Suc i) (items_of (h ! pred_ref))) ?r)"
      by (simp only: a(3,4,5,6) Suc_eq_plus1 prod.collapse)
    with True show ?thesis
      by (subst record_loop_heap.simps) (simp add: d)
  qed
qed

lemma record_count_heap_frame:
  "take (length h) (snd (RecordMetric_count_instance_heap cls m gold_ref pred_ref h)) = h"
proof -
  have "take (length h)
          (snd (record_loop_heap mode eq gold_ref pred_ref is (length h) 0 t (h @ [v]))) = h"
    for mode eq "is" t v
    using record_loop_heap_frame [of "length h" mode eq gold_ref pred_ref "is" 0 t "h @ [v]"]
    by simp
  then show ?thesis
    by (simp add: RecordMetric_count_instance_heap_def alloc_def Let_def case_prod_beta)
qed

lemma record_count_heap_pure:
  assumes "gold_ref < length h" "pred_ref < length h"
  shows "fst (RecordMetric_count_instance_heap cls m gold_ref pred_ref h)
           = RecordMetric_count_instance cls m (items_of (h ! gold_ref))
               (items_of (h ! pred_ref))"
proof -
  have "fst (record_loop_heap mode eq gold_ref pred_ref is (length h) 0 t (h @ [Flags bs]))
          = fst (record_loop mode eq (items_of (h ! gold_ref)) is
                   (items_of (h ! pred_ref)) (t, bs))" for mode eq "is" t bs
    using record_loop_heap_pure
            [of "length h" gold_ref pred_ref "h @ [Flags bs]" mode eq "is" 0 t] assms
    by (simp add: nth_append)
  then show ?thesis
    by (simp add: RecordMetric_count_instance_heap_def RecordMetric_count_instance_def
          alloc_def Let_def case_prod_beta)
qed

text \<open>
  Claim C9. \<open>Metric.count_instance\<close> and \<open>RecordMetric.count_instance\<close> leave every list
  object that existed before the call as it was, in every match mode and also when
  both arguments are the same object: the removal of \<open>normal\<close> mode and the flag updates
  write to objects the call allocated itself. In particular the two argument lists are
  unchanged, and the accumulator and the exception of the call are those of the
  functions on list values, \<open>count_instance\<close> and \<open>RecordMetric_count_instance\<close>, applied
  to the contents of the two arguments.
\<close>

theorem count_instance_leaves_arguments:
  "take (length h) (snd (count_instance_heap m gold_ref pred_ref h)) = h
   \<and> take (length hr) (snd (RecordMetric_count_instance_heap cls mr gold_rec pred_rec hr)) = hr
   \<and> (gold_ref < length h \<and> pred_ref < length h \<longrightarrow>
        snd (count_instance_heap m gold_ref pred_ref h) ! gold_ref = h ! gold_ref
        \<and> snd (count_instance_heap m gold_ref pred_ref h) ! pred_ref = h ! pred_ref
        \<and> fst (count_instance_heap m gold_ref pred_ref h)
            = count_instance m (items_of (h ! gold_ref)) (items_of (h ! pred_ref)))
   \<and> (gold_rec < length hr \<and> pred_rec < length hr \<longrightarrow>
        snd (RecordMetric_count_instance_heap cls mr gold_rec pred_rec hr) ! gold_rec
          = hr ! gold_rec
        \<and> snd (RecordMetric_count_instance_heap cls mr gold_rec pred_rec hr) ! pred_rec
          = hr ! pred_rec
        \<and> fst (RecordMetric_count_instance_heap cls mr gold_rec pred_rec hr)
            = RecordMetric_count_instance cls mr (items_of (hr ! gold_rec))
                (items_of (hr ! pred_rec)))"
proof (intro conjI impI)
  show f1: "take (length h) (snd (count_instance_heap m gold_ref pred_ref h)) = h"
    by (rule count_instance_heap_frame)
  show f2: "take (length hr)
              (snd (RecordMetric_count_instance_heap cls mr gold_rec pred_rec hr)) = hr"
    by (rule record_count_heap_frame)
  have n: "xs ! a = ys ! a" if "take (length ys) xs = ys" "a < length ys"
    for xs ys :: "'x list" and a
    using that by (metis nth_take)
  {
    assume a: "gold_ref < length h \<and> pred_ref < length h"
    show "snd (count_instance_heap m gold_ref pred_ref h) ! gold_ref = h ! gold_ref"
      using f1 a by (intro n) simp_all
    show "snd (count_instance_heap m gold_ref pred_ref h) ! pred_ref = h ! pred_ref"
      using f1 a by (intro n) simp_all
    show "fst (count_instance_heap m gold_ref pred_ref h)
            = count_instance m (items_of (h ! gold_ref)) (items_of (h ! pred_ref))"
      using a by (intro count_instance_heap_pure) simp_all
  }
  {
    assume a: "gold_rec < length hr \<and> pred_rec < length hr"
    show "snd (RecordMetric_count_instance_heap cls mr gold_rec pred_rec hr) ! gold_rec
          = hr ! gold_rec"
      using f2 a by (intro n) simp_all
    show "snd (RecordMetric_count_instance_heap cls mr gold_rec pred_rec hr) ! pred_rec
          = hr ! pred_rec"
      using f2 a by (intro n) simp_all
    show "fst (RecordMetric_count_instance_heap cls mr gold_rec pred_rec hr)
            = RecordMetric_count_instance cls mr (items_of (hr ! gold_rec))
                (items_of (hr ! pred_rec))"
      using a by (intro record_count_heap_pure) simp_all
  }
qed

theorem count_instance_leaves_arguments_witness:
  "(0::nat) < length [Items [[''PER'', ''a''], [''PER'', ''a'']], Items [[''PER'', ''a'']]]
   \<and> (1::nat) < length [Items [[''PER'', ''a''], [''PER'', ''a'']], Items [[''PER'', ''a'']]]
   \<and> count_instance_heap (Metric_init ModeNormal) 0 1
        [Items [[''PER'', ''a''], [''PER'', ''a'']], Items [[''PER'', ''a'']]]
       = ((\<lparr>tp = 1, gold_num = 2, pred_num = 1, match_mode = ModeNormal\<rparr>, None),
          [Items [[''PER'', ''a''], [''PER'', ''a'']], Items [[''PER'', ''a'']],
           Items [[''PER'', ''a'']]])
   \<and> snd (count_instance_heap (Metric_init ModeNormal) 0 1
        [Items [[''PER'', ''a''], [''PER'', ''a'']], Items [[''PER'', ''a'']]]) ! 0
       = Items [[''PER'', ''a''], [''PER'', ''a'']]
   \<and> (0::nat) < length [Items [attack_ab, attack_ab], Items [attack_ba]]
   \<and> (1::nat) < length [Items [attack_ab, attack_ab], Items [attack_ba]]
   \<and> RecordMetric_count_instance_heap RecordMetric (Metric_init ModeNormal) 0 1
        [Items [attack_ab, attack_ab], Items [attack_ba]]
       = ((\<lparr>tp = 1, gold_num = 2, pred_num = 1, match_mode = ModeNormal\<rparr>, None),
          [Items [attack_ab, attack_ab], Items [attack_ba], Flags [False, True]])
   \<and> snd (RecordMetric_count_instance_heap RecordMetric (Metric_init ModeNormal) 0 1
        [Items [attack_ab, attack_ab], Items [attack_ba]]) ! 0
       = Items [attack_ab, attack_ab]"
proof -
  have e1: "count_instance_heap (Metric_init ModeNormal) 0 1
        [Items [[''PER'', ''a''], [''PER'', ''a'']], Items [[''PER'', ''a'']]]
       = ((\<lparr>tp = 1, gold_num = 2, pred_num = 1, match_mode = ModeNormal\<rparr>, None),
          [Items [[''PER'', ''a''], [''PER'', ''a'']], Items [[''PER'', ''a'']],
           Items [[''PER'', ''a'']]])"
    by (simp add: count_instance_heap_def alloc_def Metric_init_def match_loop_heap.simps)
  have e2: "RecordMetric_count_instance_heap RecordMetric (Metric_init ModeNormal) 0 1
        [Items [attack_ab, attack_ab], Items [attack_ba]]
       = ((\<lparr>tp = 1, gold_num = 2, pred_num = 1, match_mode = ModeNormal\<rparr>, None),
          [Items [attack_ab, attack_ab], Items [attack_ba], Flags [False, True]])"
    by (simp add: RecordMetric_count_instance_heap_def alloc_def Metric_init_def
          record_loop_heap.simps RecordMetric_is_equal_def attack_ab_def attack_ba_def
          upt_rec [of 0] upt_rec [of 1] upt_rec [of 2])
  show ?thesis
    using count_instance_leaves_arguments
      [of "[Items [[''PER'', ''a''], [''PER'', ''a'']], Items [[''PER'', ''a'']]]"
          "Metric_init ModeNormal" 0 1
          "[Items [attack_ab, attack_ab], Items [attack_ba]]"
          RecordMetric "Metric_init ModeNormal" 0 1] e1 e2
    by simp
qed

subsection \<open>Corpora of different lengths\<close>

lemma zip_take_min:
  "zip (take (min (length ys) (length xs)) xs) (take (min (length ys) (length xs)) ys) = zip xs ys"
proof -
  have "zip (take (min (length ys) (length xs)) xs) (take (min (length ys) (length xs)) ys)
          = take (min (length ys) (length xs)) (zip xs ys)"
    by (simp add: take_zip)
  also have "\<dots> = zip xs ys"
    by simp
  finally show ?thesis .
qed

lemma call_count_char:
  "call_count m g p =
     (if match_mode m \<noteq> ModeSet \<and> arity_mismatch (g, p) then Inl AssertionError
      else Inr (fst (count_instance m g p)))"
  by (simp add: call_count_def count_instance_def arity_mismatch_def Let_def)

lemma entity_loop_char:
  "match_mode ms = mode \<Longrightarrow> match_mode mo = mode \<Longrightarrow>
   entity_loop pairs (ms, mo) =
     (if mode \<noteq> ModeSet
         \<and> (\<exists>c \<in> set (axis_calls ''string'' pairs @ axis_calls ''offset'' pairs).
               arity_mismatch c)
      then Inl AssertionError
      else Inr (run_metric ms (axis_calls ''string'' pairs),
                run_metric mo (axis_calls ''offset'' pairs)))"
proof (induction pairs arbitrary: ms mo)
  case Nil
  show ?case by (simp add: axis_calls_def)
next
  case (Cons pg rest)
  obtain pred gold where pg: "pg = (pred, gold)" by (cases pg)
  let ?gs = "get_default gold ''string''" and ?ps = "get_default pred ''string''"
  let ?go = "get_default gold ''offset''" and ?po = "get_default pred ''offset''"
  let ?ms' = "fst (count_instance ms ?gs ?ps)" and ?mo' = "fst (count_instance mo ?go ?po)"
  have m: "match_mode ?ms' = mode" "match_mode ?mo' = mode"
    using Cons.prems by simp_all
  note ih = Cons.IH [OF m]
  show ?case
  proof (cases "mode \<noteq> ModeSet \<and> arity_mismatch (?gs, ?ps)")
    case True
    then show ?thesis using Cons.prems
      by (simp add: pg call_count_char axis_calls_def)
  next
    case s: False
    show ?thesis
    proof (cases "mode \<noteq> ModeSet \<and> arity_mismatch (?go, ?po)")
      case True
      then show ?thesis using Cons.prems s
        by (simp add: pg call_count_char axis_calls_def)
    next
      case False
      have "entity_loop (pg # rest) (ms, mo) = entity_loop rest (?ms', ?mo')"
        using Cons.prems s False by (auto simp: pg call_count_char)
      also note ih
      finally show ?thesis using s False
        by (auto simp: pg axis_calls_def)
    qed
  qed
qed

lemma event_step_char:
  assumes "match_mode (trigger_offset ms) = mode" "match_mode (trigger_string ms) = mode"
    "match_mode (role_offset ms) = mode" "match_mode (role_string ms) = mode"
  shows "event_step ms (pred, gold) =
     (if mode \<noteq> ModeSet \<and> (\<exists>c \<in> set (evt_calls [(pred, gold)]). arity_mismatch c)
      then Inl AssertionError
      else Inr \<lparr>trigger_offset = fst (count_instance (trigger_offset ms)
                   (get_default gold ''offset_trigger'') (get_default pred ''offset_trigger'')),
                trigger_string = fst (count_instance (trigger_string ms)
                   (get_default gold ''string_trigger'') (get_default pred ''string_trigger'')),
                role_offset = fst (count_instance (role_offset ms)
                   (get_default gold ''offset_role'') (get_default pred ''offset_role'')),
                role_string = fst (count_instance (role_string ms)
                   (get_default gold ''string_role'') (get_default pred ''string_role''))\<rparr>)"
proof -
  have e: "(\<exists>c \<in> set (evt_calls [(pred, gold)]). arity_mismatch c) \<longleftrightarrow>
      arity_mismatch (get_default gold ''offset_trigger'', get_default pred ''offset_trigger'')
      \<or> arity_mismatch (get_default gold ''string_trigger'', get_default pred ''string_trigger'')
      \<or> arity_mismatch (get_default gold ''offset_role'', get_default pred ''offset_role'')
      \<or> arity_mismatch (get_default gold ''string_role'', get_default pred ''string_role'')"
    by (simp add: evt_calls_def axis_calls_def)
  show ?thesis
    unfolding e event_step_def call_count_char assms prod.case
    by simp
qed

lemma evt_calls_Cons:
  "(\<exists>c \<in> set (evt_calls (pg # rest)). arity_mismatch c) \<longleftrightarrow>
     (\<exists>c \<in> set (evt_calls [pg]). arity_mismatch c)
     \<or> (\<exists>c \<in> set (evt_calls rest). arity_mismatch c)"
  by (auto simp: evt_calls_def axis_calls_def)

lemma event_loop_char:
  "match_mode (trigger_offset ms) = mode \<Longrightarrow> match_mode (trigger_string ms) = mode \<Longrightarrow>
   match_mode (role_offset ms) = mode \<Longrightarrow> match_mode (role_string ms) = mode \<Longrightarrow>
   event_loop pairs ms =
     (if mode \<noteq> ModeSet \<and> (\<exists>c \<in> set (evt_calls pairs). arity_mismatch c)
      then Inl AssertionError
      else Inr \<lparr>trigger_offset =
                  run_metric (trigger_offset ms) (axis_calls ''offset_trigger'' pairs),
                trigger_string =
                  run_metric (trigger_string ms) (axis_calls ''string_trigger'' pairs),
                role_offset = run_metric (role_offset ms) (axis_calls ''offset_role'' pairs),
                role_string = run_metric (role_string ms) (axis_calls ''string_role'' pairs)\<rparr>)"
proof (induction pairs arbitrary: ms)
  case Nil
  show ?case by (simp add: axis_calls_def evt_calls_def)
next
  case (Cons pg rest)
  obtain pred gold where pg: "pg = (pred, gold)" by (cases pg)
  let ?ms' = "\<lparr>trigger_offset = fst (count_instance (trigger_offset ms)
                   (get_default gold ''offset_trigger'') (get_default pred ''offset_trigger'')),
                trigger_string = fst (count_instance (trigger_string ms)
                   (get_default gold ''string_trigger'') (get_default pred ''string_trigger'')),
                role_offset = fst (count_instance (role_offset ms)
                   (get_default gold ''offset_role'') (get_default pred ''offset_role'')),
                role_string = fst (count_instance (role_string ms)
                   (get_default gold ''string_role'') (get_default pred ''string_role''))\<rparr>"
  have st: "event_step ms (pred, gold) =
     (if mode \<noteq> ModeSet \<and> (\<exists>c \<in> set (evt_calls [(pred, gold)]). arity_mismatch c)
      then Inl AssertionError else Inr ?ms')"
    using Cons.prems by (rule event_step_char)
  have ih: "event_loop rest ?ms' =
     (if mode \<noteq> ModeSet \<and> (\<exists>c \<in> set (evt_calls rest). arity_mismatch c)
      then Inl AssertionError
      else Inr \<lparr>trigger_offset =
                  run_metric (trigger_offset ?ms') (axis_calls ''offset_trigger'' rest),
                trigger_string =
                  run_metric (trigger_string ?ms') (axis_calls ''string_trigger'' rest),
                role_offset = run_metric (role_offset ?ms') (axis_calls ''offset_role'' rest),
                role_string = run_metric (role_string ?ms') (axis_calls ''string_role'' rest)\<rparr>)"
    using Cons.prems by (intro Cons.IH) simp_all
  have c: "(\<exists>c \<in> set (evt_calls ((pred, gold) # rest)). arity_mismatch c) \<longleftrightarrow>
     (\<exists>c \<in> set (evt_calls [(pred, gold)]). arity_mismatch c)
     \<or> (\<exists>c \<in> set (evt_calls rest). arity_mismatch c)"
    by (rule evt_calls_Cons)
  show ?case
  proof (cases "mode \<noteq> ModeSet \<and> (\<exists>c \<in> set (evt_calls [(pred, gold)]). arity_mismatch c)")
    case True
    then show ?thesis
      by (simp add: pg st c)
  next
    case False
    have st': "event_step ms (pred, gold) = Inr ?ms'"
      unfolding st by (rule if_not_P) (rule False)
    have "event_loop (pg # rest) ms = event_loop rest ?ms'"
      by (simp add: pg st')
    then show ?thesis using False
      by (simp add: ih c pg axis_calls_def)
  qed
qed

lemma boundary_view_char:
  "boundary_view xs =
     (if \<forall>x \<in> set xs. 5 \<le> length x then Inr (map (\<lambda>x. [x ! 0, x ! 2, x ! 4]) xs)
      else Inl IndexError)"
  by (induction xs) (auto simp: boundary_item_def)

lemma strip_no_mismatch:
  "\<not> arity_mismatch (map (\<lambda>x. [x ! 0, x ! 2, x ! 4]) g, map (\<lambda>x. [x ! 0, x ! 2, x ! 4]) p)"
  by (cases g; cases p) (simp_all add: arity_mismatch_def)

lemma boundary_count_char:
  "boundary_count m g p =
     (if (\<forall>x \<in> set g. 5 \<le> length x) \<and> (\<forall>x \<in> set p. 5 \<le> length x)
      then Inr (fst (count_instance m (map (\<lambda>x. [x ! 0, x ! 2, x ! 4]) g)
                       (map (\<lambda>x. [x ! 0, x ! 2, x ! 4]) p)))
      else Inl IndexError)"
  by (simp add: boundary_count_def boundary_view_char call_count_char strip_no_mismatch)

lemma relation_pairs_ok_single:
  "relation_pairs_ok mode [(pred, gold)] \<longleftrightarrow>
     (mode = ModeSet
      \<or> (\<not> arity_mismatch (get_default gold ''offset'', get_default pred ''offset'')
         \<and> \<not> arity_mismatch (get_default gold ''string'', get_default pred ''string'')))
     \<and> (\<forall>x \<in> set (get_default gold ''offset''). 5 \<le> length x)
     \<and> (\<forall>x \<in> set (get_default pred ''offset''). 5 \<le> length x)
     \<and> (\<forall>x \<in> set (get_default gold ''string''). 5 \<le> length x)
     \<and> (\<forall>x \<in> set (get_default pred ''string''). 5 \<le> length x)"
  by (auto simp: relation_pairs_ok_def five_fields_def axis_calls_def)

lemma relation_pairs_ok_Cons:
  "relation_pairs_ok mode (pg # rest) \<longleftrightarrow>
     relation_pairs_ok mode [pg] \<and> relation_pairs_ok mode rest"
  by (auto simp: relation_pairs_ok_def five_fields_def axis_calls_def)

lemma relation_step_ok:
  assumes "same_mode mode ms" "relation_pairs_ok mode [(pred, gold)]"
  shows "relation_step ms (pred, gold) =
     Inr \<lparr>strict_offset = fst (count_instance (strict_offset ms)
              (get_default gold ''offset'') (get_default pred ''offset'')),
          strict_string = fst (count_instance (strict_string ms)
              (get_default gold ''string'') (get_default pred ''string'')),
          boundary_offset = fst (count_instance (boundary_offset ms)
              (map (\<lambda>x. [x ! 0, x ! 2, x ! 4]) (get_default gold ''offset''))
              (map (\<lambda>x. [x ! 0, x ! 2, x ! 4]) (get_default pred ''offset''))),
          boundary_string = fst (count_instance (boundary_string ms)
              (map (\<lambda>x. [x ! 0, x ! 2, x ! 4]) (get_default gold ''string''))
              (map (\<lambda>x. [x ! 0, x ! 2, x ! 4]) (get_default pred ''string'')))\<rparr>"
proof -
  from assms(1) have m: "match_mode (strict_offset ms) = mode"
    "match_mode (strict_string ms) = mode"
    by (simp_all add: same_mode_def)
  from assms(2) have
    a: "mode = ModeSet
        \<or> (\<not> arity_mismatch (get_default gold ''offset'', get_default pred ''offset'')
           \<and> \<not> arity_mismatch (get_default gold ''string'', get_default pred ''string''))"
    and b: "\<forall>x \<in> set (get_default gold ''offset''). 5 \<le> length x"
      "\<forall>x \<in> set (get_default pred ''offset''). 5 \<le> length x"
      "\<forall>x \<in> set (get_default gold ''string''). 5 \<le> length x"
      "\<forall>x \<in> set (get_default pred ''string''). 5 \<le> length x"
    unfolding relation_pairs_ok_single by simp_all
  have 1: "call_count (strict_offset ms) (get_default gold ''offset'')
             (get_default pred ''offset'')
           = Inr (fst (count_instance (strict_offset ms) (get_default gold ''offset'')
                         (get_default pred ''offset'')))"
    using a m by (auto simp: call_count_char)
  have 2: "call_count (strict_string ms) (get_default gold ''string'')
             (get_default pred ''string'')
           = Inr (fst (count_instance (strict_string ms) (get_default gold ''string'')
                         (get_default pred ''string'')))"
    using a m by (auto simp: call_count_char)
  show ?thesis
    by (simp add: relation_step_def 1 2 boundary_count_char b)
qed

lemma relation_step_not_ok:
  assumes "same_mode mode ms" "\<not> relation_pairs_ok mode [(pred, gold)]"
  shows "\<exists>e. relation_step ms (pred, gold) = Inl e"
proof -
  from assms(1) have m: "match_mode (strict_offset ms) = mode"
    "match_mode (strict_string ms) = mode"
    by (simp_all add: same_mode_def)
  have "relation_step ms (pred, gold) = Inr ms' \<Longrightarrow> relation_pairs_ok mode [(pred, gold)]"
    for ms'
    unfolding relation_pairs_ok_single relation_step_def prod.case
    using m
    by (auto simp: call_count_char boundary_count_char split: sum.splits if_splits)
  with assms(2) show ?thesis
    by (cases "relation_step ms (pred, gold)") auto
qed

lemma relation_loop_ok:
  "same_mode mode ms \<Longrightarrow> relation_pairs_ok mode pairs \<Longrightarrow>
   relation_loop pairs ms =
     Inr \<lparr>strict_offset = run_metric (strict_offset ms) (axis_calls ''offset'' pairs),
          strict_string = run_metric (strict_string ms) (axis_calls ''string'' pairs),
          boundary_offset = run_metric (boundary_offset ms) (boundary_calls ''offset'' pairs),
          boundary_string = run_metric (boundary_string ms) (boundary_calls ''string'' pairs)\<rparr>"
proof (induction pairs arbitrary: ms)
  case Nil
  show ?case by (simp add: axis_calls_def boundary_calls_def)
next
  case (Cons pg rest)
  obtain pred gold where pg: "pg = (pred, gold)" by (cases pg)
  let ?ms1 = "\<lparr>strict_offset = fst (count_instance (strict_offset ms)
              (get_default gold ''offset'') (get_default pred ''offset'')),
          strict_string = fst (count_instance (strict_string ms)
              (get_default gold ''string'') (get_default pred ''string'')),
          boundary_offset = fst (count_instance (boundary_offset ms)
              (map (\<lambda>x. [x ! 0, x ! 2, x ! 4]) (get_default gold ''offset''))
              (map (\<lambda>x. [x ! 0, x ! 2, x ! 4]) (get_default pred ''offset''))),
          boundary_string = fst (count_instance (boundary_string ms)
              (map (\<lambda>x. [x ! 0, x ! 2, x ! 4]) (get_default gold ''string''))
              (map (\<lambda>x. [x ! 0, x ! 2, x ! 4]) (get_default pred ''string'')))\<rparr>"
  from Cons.prems(2) have ok: "relation_pairs_ok mode [(pred, gold)]"
    and okr: "relation_pairs_ok mode rest"
    unfolding pg relation_pairs_ok_Cons [of mode "(pred, gold)" rest] by simp_all
  have st: "relation_step ms (pred, gold) = Inr ?ms1"
    by (rule relation_step_ok [OF Cons.prems(1) ok])
  have sm: "same_mode mode ?ms1"
    using Cons.prems(1) by (simp add: same_mode_def)
  have ih: "relation_loop rest ?ms1 =
     Inr \<lparr>strict_offset = run_metric (strict_offset ?ms1) (axis_calls ''offset'' rest),
          strict_string = run_metric (strict_string ?ms1) (axis_calls ''string'' rest),
          boundary_offset = run_metric (boundary_offset ?ms1) (boundary_calls ''offset'' rest),
          boundary_string = run_metric (boundary_string ?ms1) (boundary_calls ''string'' rest)\<rparr>"
    by (rule Cons.IH [OF sm okr])
  have l: "relation_loop (pg # rest) ms = relation_loop rest ?ms1"
    unfolding pg relation_loop.simps st by simp
  show ?case
    unfolding l ih by (simp add: pg axis_calls_def boundary_calls_def)
qed

lemma relation_loop_not_ok:
  "same_mode mode ms \<Longrightarrow> \<not> relation_pairs_ok mode pairs \<Longrightarrow>
   \<exists>e. relation_loop pairs ms = Inl e"
proof (induction pairs arbitrary: ms)
  case Nil
  then show ?case
    by (simp add: relation_pairs_ok_def five_fields_def axis_calls_def)
next
  case (Cons pg rest)
  obtain pred gold where pg: "pg = (pred, gold)" by (cases pg)
  let ?ms1 = "\<lparr>strict_offset = fst (count_instance (strict_offset ms)
              (get_default gold ''offset'') (get_default pred ''offset'')),
          strict_string = fst (count_instance (strict_string ms)
              (get_default gold ''string'') (get_default pred ''string'')),
          boundary_offset = fst (count_instance (boundary_offset ms)
              (map (\<lambda>x. [x ! 0, x ! 2, x ! 4]) (get_default gold ''offset''))
              (map (\<lambda>x. [x ! 0, x ! 2, x ! 4]) (get_default pred ''offset''))),
          boundary_string = fst (count_instance (boundary_string ms)
              (map (\<lambda>x. [x ! 0, x ! 2, x ! 4]) (get_default gold ''string''))
              (map (\<lambda>x. [x ! 0, x ! 2, x ! 4]) (get_default pred ''string'')))\<rparr>"
  show ?case
  proof (cases "relation_pairs_ok mode [(pred, gold)]")
    case False
    with Cons.prems(1) obtain e where e: "relation_step ms (pred, gold) = Inl e"
      using relation_step_not_ok by blast
    show ?thesis unfolding pg relation_loop.simps e by simp
  next
    case True
    with Cons.prems(2) have nr: "\<not> relation_pairs_ok mode rest"
      unfolding pg relation_pairs_ok_Cons [of mode "(pred, gold)" rest] by simp
    have st: "relation_step ms (pred, gold) = Inr ?ms1"
      by (rule relation_step_ok [OF Cons.prems(1) True])
    have sm: "same_mode mode ?ms1"
      using Cons.prems(1) by (simp add: same_mode_def)
    have l: "relation_loop (pg # rest) ms = relation_loop rest ?ms1"
      unfolding pg relation_loop.simps st by simp
    show ?thesis unfolding l by (rule Cons.IH [OF sm nr])
  qed
qed

lemma zip_scored_pairs:
  "zip pred_instance_list gold_instance_list = scored_pairs gold_instance_list pred_instance_list"
  unfolding scored_pairs_def by (rule zip_take_min [symmetric])

lemma compute_f1_case:
  "(case compute_f1 rnd m prefix of Inl e \<Rightarrow> Inl e | Inr r \<Rightarrow> F r)
     = F (projr (compute_f1 rnd m prefix))"
  by (simp add: compute_f1_Inr)

lemma entity_eval_char:
  "EntityScorer_eval_instance_list rnd mode gold_instance_list pred_instance_list =
     (if mode \<noteq> ModeSet
         \<and> (\<exists>c \<in> set (axis_calls ''string'' (scored_pairs gold_instance_list pred_instance_list)
                       @ axis_calls ''offset''
                           (scored_pairs gold_instance_list pred_instance_list)).
               arity_mismatch c)
      then Inl AssertionError
      else Inr (projr (compute_f1 rnd
                         (run_metric (Metric_init mode)
                            (axis_calls ''string''
                               (scored_pairs gold_instance_list pred_instance_list)))
                         ''string-ent-'')
                ++ projr (compute_f1 rnd
                            (run_metric (Metric_init mode)
                               (axis_calls ''offset''
                                  (scored_pairs gold_instance_list pred_instance_list)))
                            ''offset-ent-'')))"
proof -
  have m: "match_mode (Metric_init mode) = mode"
    by (simp add: Metric_init_def)
  show ?thesis
    unfolding EntityScorer_eval_instance_list_def zip_scored_pairs
      entity_loop_char [OF m m]
    by (simp add: compute_f1_case)
qed

lemma event_eval_char:
  "EventScorer_eval_instance_list rnd mode gold_instance_list pred_instance_list =
     (if mode \<noteq> ModeSet
         \<and> (\<exists>c \<in> set (evt_calls (scored_pairs gold_instance_list pred_instance_list)).
               arity_mismatch c)
      then Inl AssertionError
      else Inr (projr (compute_f1 rnd
                         (run_metric (Metric_init mode)
                            (axis_calls ''offset_trigger''
                               (scored_pairs gold_instance_list pred_instance_list)))
                         ''offset-evt-trigger-'')
                ++ projr (compute_f1 rnd
                            (run_metric (Metric_init mode)
                               (axis_calls ''string_trigger''
                                  (scored_pairs gold_instance_list pred_instance_list)))
                            ''string-evt-trigger-'')
                ++ projr (compute_f1 rnd
                            (run_metric (Metric_init mode)
                               (axis_calls ''offset_role''
                                  (scored_pairs gold_instance_list pred_instance_list)))
                            ''offset-evt-role-'')
                ++ projr (compute_f1 rnd
                            (run_metric (Metric_init mode)
                               (axis_calls ''string_role''
                                  (scored_pairs gold_instance_list pred_instance_list)))
                            ''string-evt-role-'')))"
proof -
  let ?init = "\<lparr>trigger_offset = Metric_init mode, trigger_string = Metric_init mode,
                 role_offset = Metric_init mode, role_string = Metric_init mode\<rparr>"
  have m: "match_mode (trigger_offset ?init) = mode" "match_mode (trigger_string ?init) = mode"
    "match_mode (role_offset ?init) = mode" "match_mode (role_string ?init) = mode"
    by (simp_all add: Metric_init_def)
  show ?thesis
    unfolding EventScorer_eval_instance_list_def zip_scored_pairs
      event_loop_char [OF m]
    by (simp add: compute_f1_case)
qed

lemma relation_eval_ok:
  assumes "relation_pairs_ok mode (scored_pairs gold_instance_list pred_instance_list)"
  shows "RelationScorer_eval_instance_list rnd mode gold_instance_list pred_instance_list =
     Inr (projr (compute_f1 rnd
                   (run_metric (Metric_init mode)
                      (axis_calls ''offset''
                         (scored_pairs gold_instance_list pred_instance_list)))
                   ''offset-rel-strict-'')
          ++ projr (compute_f1 rnd
                      (run_metric (Metric_init mode)
                         (axis_calls ''string''
                            (scored_pairs gold_instance_list pred_instance_list)))
                      ''string-rel-strict-'')
          ++ projr (compute_f1 rnd
                      (run_metric (Metric_init mode)
                         (boundary_calls ''offset''
                            (scored_pairs gold_instance_list pred_instance_list)))
                      ''offset-rel-boundary-'')
          ++ projr (compute_f1 rnd
                      (run_metric (Metric_init mode)
                         (boundary_calls ''string''
                            (scored_pairs gold_instance_list pred_instance_list)))
                      ''string-rel-boundary-''))"
proof -
  let ?init = "\<lparr>strict_offset = Metric_init mode, strict_string = Metric_init mode,
                 boundary_offset = Metric_init mode, boundary_string = Metric_init mode\<rparr>"
  have s: "same_mode mode ?init"
    by (simp add: same_mode_def Metric_init_def)
  show ?thesis
    unfolding RelationScorer_eval_instance_list_def RelationScorer_metrics_def
      zip_scored_pairs relation_loop_ok [OF s assms]
    by (simp add: compute_f1_case)
qed

lemma relation_eval_not_ok:
  assumes "\<not> relation_pairs_ok mode (scored_pairs gold_instance_list pred_instance_list)"
  shows "\<exists>e. RelationScorer_eval_instance_list rnd mode gold_instance_list pred_instance_list
               = Inl e"
proof -
  let ?init = "\<lparr>strict_offset = Metric_init mode, strict_string = Metric_init mode,
                 boundary_offset = Metric_init mode, boundary_string = Metric_init mode\<rparr>"
  have s: "same_mode mode ?init"
    by (simp add: same_mode_def Metric_init_def)
  from relation_loop_not_ok [OF s assms] obtain e where
    "relation_loop (scored_pairs gold_instance_list pred_instance_list) ?init = Inl e"
    by blast
  then show ?thesis
    unfolding RelationScorer_eval_instance_list_def RelationScorer_metrics_def
      zip_scored_pairs
    by simp
qed

text \<open>
  Claim C10. The three scorers pair the examples with \<open>zip\<close>, so corpora of different
  lengths raise no error of their own: the result is the one of the two corpora cut to
  the shorter length. It is determined by the first \<open>min(len(gold), len(pred))\<close> pairs
  alone. For the entity and the event scorer it is \<open>AssertionError\<close> when, outside \<open>set\<close>
  mode, the assertion fails on one of these pairs, and otherwise the mapping of
  \<open>compute_f1\<close> of accumulators that received exactly the calls of these pairs, in
  order. For the relation scorer it is that mapping when no assertion fails and every
  tuple of these pairs has five fields, and an exception otherwise. With two gold
  examples and one predicted example the entity scorer returns a mapping that counts
  the first pair only.
\<close>

theorem eval_instance_list_truncates:
  "EntityScorer_eval_instance_list rnd mode gold_instance_list pred_instance_list
     = EntityScorer_eval_instance_list rnd mode
         (take (min (length gold_instance_list) (length pred_instance_list)) gold_instance_list)
         (take (min (length gold_instance_list) (length pred_instance_list)) pred_instance_list)
   \<and> RelationScorer_eval_instance_list rnd mode gold_instance_list pred_instance_list
     = RelationScorer_eval_instance_list rnd mode
         (take (min (length gold_instance_list) (length pred_instance_list)) gold_instance_list)
         (take (min (length gold_instance_list) (length pred_instance_list)) pred_instance_list)
   \<and> EventScorer_eval_instance_list rnd mode gold_instance_list pred_instance_list
     = EventScorer_eval_instance_list rnd mode
         (take (min (length gold_instance_list) (length pred_instance_list)) gold_instance_list)
         (take (min (length gold_instance_list) (length pred_instance_list)) pred_instance_list)
   \<and> EntityScorer_eval_instance_list rnd mode gold_instance_list pred_instance_list =
     (if mode \<noteq> ModeSet
         \<and> (\<exists>c \<in> set (axis_calls ''string'' (scored_pairs gold_instance_list pred_instance_list)
                       @ axis_calls ''offset''
                           (scored_pairs gold_instance_list pred_instance_list)).
               arity_mismatch c)
      then Inl AssertionError
      else Inr (projr (compute_f1 rnd
                         (run_metric (Metric_init mode)
                            (axis_calls ''string''
                               (scored_pairs gold_instance_list pred_instance_list)))
                         ''string-ent-'')
                ++ projr (compute_f1 rnd
                            (run_metric (Metric_init mode)
                               (axis_calls ''offset''
                                  (scored_pairs gold_instance_list pred_instance_list)))
                            ''offset-ent-'')))
   \<and> EventScorer_eval_instance_list rnd mode gold_instance_list pred_instance_list =
     (if mode \<noteq> ModeSet
         \<and> (\<exists>c \<in> set (evt_calls (scored_pairs gold_instance_list pred_instance_list)).
               arity_mismatch c)
      then Inl AssertionError
      else Inr (projr (compute_f1 rnd
                         (run_metric (Metric_init mode)
                            (axis_calls ''offset_trigger''
                               (scored_pairs gold_instance_list pred_instance_list)))
                         ''offset-evt-trigger-'')
                ++ projr (compute_f1 rnd
                            (run_metric (Metric_init mode)
                               (axis_calls ''string_trigger''
                                  (scored_pairs gold_instance_list pred_instance_list)))
                            ''string-evt-trigger-'')
                ++ projr (compute_f1 rnd
                            (run_metric (Metric_init mode)
                               (axis_calls ''offset_role''
                                  (scored_pairs gold_instance_list pred_instance_list)))
                            ''offset-evt-role-'')
                ++ projr (compute_f1 rnd
                            (run_metric (Metric_init mode)
                               (axis_calls ''string_role''
                                  (scored_pairs gold_instance_list pred_instance_list)))
                            ''string-evt-role-'')))
   \<and> (relation_pairs_ok mode (scored_pairs gold_instance_list pred_instance_list) \<longrightarrow>
       RelationScorer_eval_instance_list rnd mode gold_instance_list pred_instance_list =
         Inr (projr (compute_f1 rnd
                       (run_metric (Metric_init mode)
                          (axis_calls ''offset''
                             (scored_pairs gold_instance_list pred_instance_list)))
                       ''offset-rel-strict-'')
              ++ projr (compute_f1 rnd
                          (run_metric (Metric_init mode)
                             (axis_calls ''string''
                                (scored_pairs gold_instance_list pred_instance_list)))
                          ''string-rel-strict-'')
              ++ projr (compute_f1 rnd
                          (run_metric (Metric_init mode)
                             (boundary_calls ''offset''
                                (scored_pairs gold_instance_list pred_instance_list)))
                          ''offset-rel-boundary-'')
              ++ projr (compute_f1 rnd
                          (run_metric (Metric_init mode)
                             (boundary_calls ''string''
                                (scored_pairs gold_instance_list pred_instance_list)))
                          ''string-rel-boundary-'')))
   \<and> (\<not> relation_pairs_ok mode (scored_pairs gold_instance_list pred_instance_list) \<longrightarrow>
       (\<exists>e. RelationScorer_eval_instance_list rnd mode gold_instance_list pred_instance_list
              = Inl e))
   \<and> (\<exists>f. EntityScorer_eval_instance_list (\<lambda>x. x) ModeNormal
          [[''offset'' \<mapsto> [[Str ''PER'', Offset [0, 1]]],
            ''string'' \<mapsto> [[Str ''PER'', Str ''Bob'']]],
           [''offset'' \<mapsto> [[Str ''ORG'', Offset [4, 5]]],
            ''string'' \<mapsto> [[Str ''ORG'', Str ''Acme'']]]]
          [[''offset'' \<mapsto> [[Str ''PER'', Offset [0, 1]]],
            ''string'' \<mapsto> [[Str ''PER'', Str ''Bob'']]]]
        = Inr f
      \<and> f ''offset-ent-gold'' = Some 1 \<and> f ''offset-ent-pred'' = Some 1
      \<and> f ''offset-ent-tp'' = Some 1 \<and> f ''string-ent-gold'' = Some 1
      \<and> f ''string-ent-F1'' = Some 100)"
proof (intro conjI impI)
  show "\<exists>f. EntityScorer_eval_instance_list (\<lambda>x. x) ModeNormal
          [[''offset'' \<mapsto> [[Str ''PER'', Offset [0, 1]]],
            ''string'' \<mapsto> [[Str ''PER'', Str ''Bob'']]],
           [''offset'' \<mapsto> [[Str ''ORG'', Offset [4, 5]]],
            ''string'' \<mapsto> [[Str ''ORG'', Str ''Acme'']]]]
          [[''offset'' \<mapsto> [[Str ''PER'', Offset [0, 1]]],
            ''string'' \<mapsto> [[Str ''PER'', Str ''Bob'']]]]
        = Inr f
      \<and> f ''offset-ent-gold'' = Some 1 \<and> f ''offset-ent-pred'' = Some 1
      \<and> f ''offset-ent-tp'' = Some 1 \<and> f ''string-ent-gold'' = Some 1
      \<and> f ''string-ent-F1'' = Some 100"
    by (simp add: EntityScorer_eval_instance_list_def call_count_def count_instance_def
          get_default_def Metric_init_def compute_f1_Inr Let_def)
next
  show "EntityScorer_eval_instance_list rnd mode gold_instance_list pred_instance_list
     = EntityScorer_eval_instance_list rnd mode
         (take (min (length gold_instance_list) (length pred_instance_list)) gold_instance_list)
         (take (min (length gold_instance_list) (length pred_instance_list)) pred_instance_list)"
    by (simp only: EntityScorer_eval_instance_list_def zip_take_min)
next
  show "RelationScorer_eval_instance_list rnd mode gold_instance_list pred_instance_list
     = RelationScorer_eval_instance_list rnd mode
         (take (min (length gold_instance_list) (length pred_instance_list)) gold_instance_list)
         (take (min (length gold_instance_list) (length pred_instance_list)) pred_instance_list)"
    by (simp only: RelationScorer_eval_instance_list_def RelationScorer_metrics_def
          zip_take_min)
next
  show "EventScorer_eval_instance_list rnd mode gold_instance_list pred_instance_list
     = EventScorer_eval_instance_list rnd mode
         (take (min (length gold_instance_list) (length pred_instance_list)) gold_instance_list)
         (take (min (length gold_instance_list) (length pred_instance_list)) pred_instance_list)"
    by (simp only: EventScorer_eval_instance_list_def zip_take_min)
qed (rule entity_eval_char event_eval_char relation_eval_ok relation_eval_not_ok, assumption?)+

theorem eval_instance_list_truncates_witness:
  "RelationScorer_eval_instance_list (\<lambda>x. x) ModeNormal
       [swapped_gold, same_spans] [swapped_pred]
     = RelationScorer_eval_instance_list (\<lambda>x. x) ModeNormal
         (take (min (length [swapped_gold, same_spans]) (length [swapped_pred]))
            [swapped_gold, same_spans])
         (take (min (length [swapped_gold, same_spans]) (length [swapped_pred]))
            [swapped_pred])
   \<and> scored_pairs [swapped_gold, same_spans] [swapped_pred] = [(swapped_pred, swapped_gold)]
   \<and> map_sum id
         (\<lambda>f. (f ''offset-rel-strict-gold'', f ''offset-rel-strict-tp'',
               f ''offset-rel-boundary-gold'', f ''offset-rel-boundary-tp'',
               f ''string-rel-boundary-F1''))
         (RelationScorer_eval_instance_list (\<lambda>x. x) ModeNormal
            [swapped_gold, same_spans] [swapped_pred])
       = Inr (Some 1, Some 0, Some 1, Some 1, Some 100)
   \<and> map_sum id (\<lambda>f. (f ''offset-ent-gold'', f ''offset-ent-pred'', f ''offset-ent-tp''))
         (EntityScorer_eval_instance_list (\<lambda>x. x) ModeNormal
            [swapped_gold, same_spans] [swapped_pred])
       = Inr (Some 1, Some 1, Some 0)
   \<and> map_sum id (\<lambda>f. (f ''offset-evt-trigger-gold'', f ''string-evt-role-pred''))
         (EventScorer_eval_instance_list (\<lambda>x. x) ModeNormal
            [[''offset_trigger'' \<mapsto> [[Str ''Attack'', Offset [3, 4]]]],
             [''offset_trigger'' \<mapsto> [[Str ''Meet'', Offset [7, 8]]]]]
            [[''string_role'' \<mapsto> [[Str ''Attack'', Str ''Target'', Str ''base'']]]])
       = Inr (Some 1, Some 1)"
proof -
  have h1: "scored_pairs [swapped_gold, same_spans] [swapped_pred]
              = [(swapped_pred, swapped_gold)]"
    by (simp add: scored_pairs_def)
  have h2: "map_sum id
         (\<lambda>f. (f ''offset-rel-strict-gold'', f ''offset-rel-strict-tp'',
               f ''offset-rel-boundary-gold'', f ''offset-rel-boundary-tp'',
               f ''string-rel-boundary-F1''))
         (RelationScorer_eval_instance_list (\<lambda>x. x) ModeNormal
            [swapped_gold, same_spans] [swapped_pred])
       = Inr (Some 1, Some 0, Some 1, Some 1, Some 100)"
  proof -
    have ok: "relation_pairs_ok ModeNormal
                (scored_pairs [swapped_gold, same_spans] [swapped_pred])"
      unfolding h1 relation_pairs_ok_single
      by (simp add: arity_mismatch_def get_default_def swapped_gold_def swapped_pred_def)
    have "RelationScorer_eval_instance_list (\<lambda>x. x) ModeNormal
            [swapped_gold, same_spans] [swapped_pred] =
         Inr (projr (compute_f1 (\<lambda>x. x)
                       (run_metric (Metric_init ModeNormal)
                          (axis_calls ''offset''
                             (scored_pairs [swapped_gold, same_spans] [swapped_pred])))
                       ''offset-rel-strict-'')
              ++ projr (compute_f1 (\<lambda>x. x)
                          (run_metric (Metric_init ModeNormal)
                             (axis_calls ''string''
                                (scored_pairs [swapped_gold, same_spans] [swapped_pred])))
                          ''string-rel-strict-'')
              ++ projr (compute_f1 (\<lambda>x. x)
                          (run_metric (Metric_init ModeNormal)
                             (boundary_calls ''offset''
                                (scored_pairs [swapped_gold, same_spans] [swapped_pred])))
                          ''offset-rel-boundary-'')
              ++ projr (compute_f1 (\<lambda>x. x)
                          (run_metric (Metric_init ModeNormal)
                             (boundary_calls ''string''
                                (scored_pairs [swapped_gold, same_spans] [swapped_pred])))
                          ''string-rel-boundary-''))"
      using eval_instance_list_truncates
              [of "\<lambda>x. x" ModeNormal "[swapped_gold, same_spans]" "[swapped_pred]"] ok
      by blast
    note eq = this [unfolded h1]
    show ?thesis
      unfolding eq
      by (simp add: axis_calls_def boundary_calls_def count_instance_def get_default_def
            Metric_init_def compute_f1_Inr swapped_gold_def swapped_pred_def)
  qed
  have h3: "map_sum id (\<lambda>f. (f ''offset-ent-gold'', f ''offset-ent-pred'', f ''offset-ent-tp''))
         (EntityScorer_eval_instance_list (\<lambda>x. x) ModeNormal
            [swapped_gold, same_spans] [swapped_pred])
       = Inr (Some 1, Some 1, Some 0)"
    by (simp add: EntityScorer_eval_instance_list_def call_count_def count_instance_def
          get_default_def Metric_init_def compute_f1_Inr Let_def
          swapped_gold_def swapped_pred_def)
  have h4: "map_sum id (\<lambda>f. (f ''offset-evt-trigger-gold'', f ''string-evt-role-pred''))
         (EventScorer_eval_instance_list (\<lambda>x. x) ModeNormal
            [[''offset_trigger'' \<mapsto> [[Str ''Attack'', Offset [3, 4]]]],
             [''offset_trigger'' \<mapsto> [[Str ''Meet'', Offset [7, 8]]]]]
            [[''string_role'' \<mapsto> [[Str ''Attack'', Str ''Target'', Str ''base'']]]])
       = Inr (Some 1, Some 1)"
    by (simp add: EventScorer_eval_instance_list_def event_step_def call_count_def
          count_instance_def get_default_def Metric_init_def compute_f1_Inr Let_def)
  have h0: "RelationScorer_eval_instance_list (\<lambda>x. x) ModeNormal
       [swapped_gold, same_spans] [swapped_pred]
     = RelationScorer_eval_instance_list (\<lambda>x. x) ModeNormal
         (take (min (length [swapped_gold, same_spans]) (length [swapped_pred]))
            [swapped_gold, same_spans])
         (take (min (length [swapped_gold, same_spans]) (length [swapped_pred]))
            [swapped_pred])"
    using eval_instance_list_truncates
            [of "\<lambda>x. x" ModeNormal "[swapped_gold, same_spans]" "[swapped_pred]"]
    by (elim conjE)
  show ?thesis
    using h0 h1 h2 h3 h4 by (intro conjI)
qed

end
